theory Spec2Isabelle
  imports Complex_Main "HOL-Library.Sublist" "HOL-Library.Multiset"
begin

section \<open>Strings of the source language\<close>

text \<open>
  A TypeScript string is a sequence of UTF-16 code units: \<open>length\<close>, \<open>substring\<close> and
  \<open>replace\<close> all count code units. The built-in prompts contain Chinese text, which the
  8-bit type \<open>char\<close> cannot hold, so a string of the program is a list of code units
  (natural numbers below 65536). \<open>js\<close> embeds an ASCII literal.
\<close>

type_synonym ustring = "nat list"

abbreviation js :: "string \<Rightarrow> ustring" where
  "js s \<equiv> map of_char s"

text \<open>Template literals print numbers in decimal (\<open>`${statusCode}`\<close>).\<close>

fun show_nat :: "nat \<Rightarrow> ustring" where
  "show_nat n = (if n < 10 then [48 + n] else show_nat (n div 10) @ [48 + n mod 10])"

declare show_nat.simps [simp del]

definition show_int :: "int \<Rightarrow> ustring" where
  "show_int i = (if i < 0 then js ''-'' @ show_nat (nat (- i)) else show_nat (nat i))"

text \<open>JavaScript truthiness of an optional string: \<open>undefined\<close> and \<open>''\<close> are falsy.\<close>

fun truthy :: "ustring option \<Rightarrow> bool" where
  "truthy None = False"
| "truthy (Some s) = (s \<noteq> [])"

text \<open>\<open>a || b\<close> on strings.\<close>

definition orElse :: "ustring option \<Rightarrow> ustring \<Rightarrow> ustring" where
  "orElse a b = (case a of None \<Rightarrow> b | Some s \<Rightarrow> if s = [] then b else s)"

subsection \<open>\<open>String.prototype.replace\<close> with a string pattern\<close>

text \<open>
  \<open>s.replace(pat, repl)\<close> replaces the first occurrence of \<open>pat\<close> only, and the
  replacement text is not copied verbatim: \<open>$$\<close> stands for a dollar sign, \<open>$&\<close> for the
  matched text, \<open>$`\<close> for the part of \<open>s\<close> before the match and \<open>$'\<close> for the part after
  it. With a string pattern there are no capture groups, so every other \<open>$\<close> is literal.
\<close>

fun split_first :: "ustring \<Rightarrow> ustring \<Rightarrow> (ustring \<times> ustring) option" where
  "split_first pat [] = (if pat = [] then Some ([], []) else None)"
| "split_first pat (c # s) =
     (if take (length pat) (c # s) = pat then Some ([], drop (length pat) (c # s))
      else map_option (\<lambda>(b, a). (c # b, a)) (split_first pat s))"

fun get_substitution :: "ustring \<Rightarrow> ustring \<Rightarrow> ustring \<Rightarrow> ustring \<Rightarrow> ustring" where
  "get_substitution matched pre post [] = []"
| "get_substitution matched pre post [c] = [c]"
| "get_substitution matched pre post (c # d # r) =
     (if c = 36 \<and> d = 36 then 36 # get_substitution matched pre post r
      else if c = 36 \<and> d = 38 then matched @ get_substitution matched pre post r
      else if c = 36 \<and> d = 96 then pre @ get_substitution matched pre post r
      else if c = 36 \<and> d = 39 then post @ get_substitution matched pre post r
      else c # get_substitution matched pre post (d # r))"

definition js_replace :: "ustring \<Rightarrow> ustring \<Rightarrow> ustring \<Rightarrow> ustring" where
  "js_replace pat repl s =
     (case split_first pat s of
        None \<Rightarrow> s
      | Some (b, a) \<Rightarrow> b @ get_substitution pat b a repl @ a)"

section \<open>Data model (api-integrations/types.ts)\<close>

datatype role = System | User | Assistant

record ChatMessage =
  role :: role
  content :: ustring

record PromptConfig =
  systemPrompt :: ustring
  userPrompt :: ustring
  temperature :: real
  maxTokens :: nat

datatype Language = Chinese | English

text \<open>
  \<open>getPromptConfig\<close> tests \<open>customPrompts[language]\<close> at run time, so either entry of a
  \<open>CustomPrompts\<close> object may be missing.
\<close>

record CustomPrompts =
  chinese :: "PromptConfig option"
  english :: "PromptConfig option"

datatype APIProvider = Claude | OpenAI | OpenRouter | Portkey

record LLMResponse =
  summary :: ustring
  error :: "ustring option"
  fromCache :: "bool option"
  cachedAt :: "nat option"

definition DEFAULT_PROMPTS :: "Language \<Rightarrow> PromptConfig" where
  "DEFAULT_PROMPTS l =
     (case l of
        Chinese \<Rightarrow>
          \<lparr> systemPrompt =
              [20320, 26159, 19968, 20010, 26377, 29992, 30340, 21161, 25163, 65292, 19987,
               38376, 24635, 32467, 32593, 39029, 20869, 23481, 12290, 35831, 25552, 20379,
               31616, 27905, 12289, 32467, 26500, 28165, 26224, 30340, 25688, 35201, 65292,
               31361, 20986, 20027, 35201, 35266, 28857, 21644, 20851, 38190, 20449, 24687,
               12290],
            userPrompt =
              [35831, 20026, 20197, 19979, 32593, 39029, 20869, 23481, 25552, 20379, 19968,
               20010, 31616, 27905, 12289, 32467, 26500, 28165, 26224, 30340, 20013, 25991,
               25688, 35201, 65292, 31361, 20986, 20027, 35201, 35266, 28857, 21644, 20851,
               38190, 20449, 24687, 65306, 10, 10] @ js ''{text}'',
            temperature = 0.5,
            maxTokens = 1000 \<rparr>
      | English \<Rightarrow>
          \<lparr> systemPrompt =
              js ''You are a helpful assistant that summarizes web page content. Provide a concise, well-structured summary highlighting the main points and key information.'',
            userPrompt =
              js ''Please provide a concise, well-structured summary of this webpage content, highlighting the main points and key information:''
              @ [10, 10] @ js ''{text}'',
            temperature = 0.5,
            maxTokens = 1000 \<rparr>)"

definition DEFAULT_MODEL_IDENTIFIERS :: "APIProvider \<Rightarrow> ustring" where
  "DEFAULT_MODEL_IDENTIFIERS p =
     (case p of
        Claude \<Rightarrow> js ''claude-sonnet-4-20250514''
      | OpenAI \<Rightarrow> js ''gpt-4''
      | OpenRouter \<Rightarrow> js ''openai/gpt-4''
      | Portkey \<Rightarrow> js ''gpt-4'')"

definition customEntry :: "CustomPrompts \<Rightarrow> Language \<Rightarrow> PromptConfig option" where
  "customEntry cp l = (case l of Chinese \<Rightarrow> chinese cp | English \<Rightarrow> english cp)"

definition getPromptConfig :: "Language \<Rightarrow> CustomPrompts option \<Rightarrow> PromptConfig" where
  "getPromptConfig language customPrompts =
     (case customPrompts of
        None \<Rightarrow> DEFAULT_PROMPTS language
      | Some cp \<Rightarrow>
          (case customEntry cp language of
             Some p \<Rightarrow> p
           | None \<Rightarrow> DEFAULT_PROMPTS language))"

definition createPrompt :: "ustring \<Rightarrow> Language \<Rightarrow> CustomPrompts option \<Rightarrow> ustring" where
  "createPrompt text language customPrompts =
     js_replace (js ''{text}'') text (userPrompt (getPromptConfig language customPrompts))"

definition getModelIdentifier :: "APIProvider \<Rightarrow> ustring option \<Rightarrow> ustring" where
  "getModelIdentifier provider modelIdentifier =
     orElse modelIdentifier (DEFAULT_MODEL_IDENTIFIERS provider)"

text \<open>A parameter declared \<open>language: Language = 'chinese'\<close> receives \<open>undefined\<close> as Chinese.\<close>

definition orChinese :: "Language option \<Rightarrow> Language" where
  "orChinese l = (case l of None \<Rightarrow> Chinese | Some x \<Rightarrow> x)"

definition textToChatMessages ::
  "ustring \<Rightarrow> Language option \<Rightarrow> CustomPrompts option \<Rightarrow> ChatMessage list" where
  "textToChatMessages text language customPrompts =
     [\<lparr> role = User, content = createPrompt text (orChinese language) customPrompts \<rparr>]"

definition isTextSummarization :: "ChatMessage list \<Rightarrow> bool" where
  "isTextSummarization messages =
     (case messages of [m] \<Rightarrow> role m = User | _ \<Rightarrow> False)"

section \<open>Context chunker (background.ts, \<open>chunkLargeContext\<close>)\<close>

definition maxChunkSize :: nat where
  "maxChunkSize = 50000"

text \<open>
  The \<open>for\<close> loop of \<open>chunkLargeContext\<close>, with its three local variables \<open>chunks\<close>,
  \<open>currentChunk\<close> and \<open>currentChunkSize\<close> as accumulators.
\<close>

fun chunkLargeContext_loop ::
  "ChatMessage list \<Rightarrow> ChatMessage list list \<Rightarrow> ChatMessage list \<Rightarrow> nat
     \<Rightarrow> ChatMessage list list \<times> ChatMessage list \<times> nat" where
  "chunkLargeContext_loop [] chunks currentChunk currentChunkSize =
     (chunks, currentChunk, currentChunkSize)"
| "chunkLargeContext_loop (message # rest) chunks currentChunk currentChunkSize =
     (let messageSize = length (content message) in
      if currentChunkSize + messageSize > maxChunkSize \<and> currentChunk \<noteq> []
      then chunkLargeContext_loop rest (chunks @ [currentChunk]) [message] messageSize
      else chunkLargeContext_loop rest chunks (currentChunk @ [message])
             (currentChunkSize + messageSize))"

definition chunkLargeContext :: "ChatMessage list \<Rightarrow> ChatMessage list list" where
  "chunkLargeContext messages =
     (case chunkLargeContext_loop messages [] [] 0 of
        (chunks, currentChunk, currentChunkSize) \<Rightarrow>
          if currentChunk \<noteq> [] then chunks @ [currentChunk] else chunks)"

text \<open>The size the chunker accumulates for a chunk: the sum of its content lengths.\<close>

definition chunkSize :: "ChatMessage list \<Rightarrow> nat" where
  "chunkSize c = sum_list (map (\<lambda>m. length (content m)) c)"

section \<open>Portkey's truncation of a large context (portkey.ts, \<open>processLargeContext\<close>)\<close>

definition estimateTokens :: "ustring \<Rightarrow> nat" where
  "estimateTokens text = (length text + 3) div 4"

text \<open>\<open>s.substring(0, n)\<close>: a negative \<open>n\<close> counts as 0, a large one as the length.\<close>

definition substring0 :: "ustring \<Rightarrow> int \<Rightarrow> ustring" where
  "substring0 s n = take (nat n) s"

text \<open>
  The loop over \<open>remainingMessages\<close>. \<open>unshift\<close> puts a message in front of everything
  collected so far; \<open>break\<close> ends the loop with what has been collected.
\<close>

fun processLargeContext_loop ::
  "nat \<Rightarrow> ChatMessage list \<Rightarrow> ChatMessage list \<Rightarrow> nat \<Rightarrow> ChatMessage list" where
  "processLargeContext_loop maxT [] processedMessages totalTokens = processedMessages"
| "processLargeContext_loop maxT (message # rest) processedMessages totalTokens =
     (let messageTokens = estimateTokens (content message);
          reservedTokens = maxT div 3;
          availableTokens = maxT - reservedTokens
      in if totalTokens + messageTokens \<le> availableTokens
         then processLargeContext_loop maxT rest (message # processedMessages)
                (totalTokens + messageTokens)
         else if int messageTokens > int availableTokens - int totalTokens
         then (let availableChars = (int availableTokens - int totalTokens) * 4;
                   truncatedContent = substring0 (content message) availableChars @ js ''...''
               in \<lparr> role = role message, content = truncatedContent \<rparr> # processedMessages)
         else processLargeContext_loop maxT rest processedMessages totalTokens)"

definition leadingSystem :: "ChatMessage list \<Rightarrow> ChatMessage list" where
  "leadingSystem messages =
     (case messages of [] \<Rightarrow> [] | m # _ \<Rightarrow> if role m = System then [m] else [])"

definition processLargeContext :: "ChatMessage list \<Rightarrow> nat \<Rightarrow> ChatMessage list" where
  "processLargeContext messages maxT =
     processLargeContext_loop maxT (rev (drop 1 messages)) (leadingSystem messages)
       (sum_list (map (\<lambda>m. estimateTokens (content m)) (leadingSystem messages)))"

section \<open>Provider adapters (api-integrations)\<close>

record APIConfig =
  apiKey :: ustring
  apiUrl :: "ustring option"
  virtualKey :: "ustring option"
  modelIdentifier :: "ustring option"
  language :: "Language option"
  customPrompts :: "CustomPrompts option"

text \<open>
  A \<open>ChatRequest\<close> carries the six fields of an \<open>APIConfig\<close> and five more; \<open>provider\<close>
  arrives in an untyped boundary message, so it is the string that was sent.
\<close>

record ChatRequest = APIConfig +
  messages :: "ChatMessage list"
  provider :: ustring
  url :: "ustring option"
  forceFresh :: "bool option"
  tabId :: "int option"

datatype messagesOrText = Text ustring | Messages "ChatMessage list"

subsection \<open>What the network answers\<close>

text \<open>
  Of a response body the adapters read three things only: \<open>error.message\<close>, \<open>message\<close>
  and the completion text (\<open>choices[0].message.content\<close>, for Claude
  \<open>content[0].text\<close>). \<open>NotJson\<close> is a body that \<open>response.json()\<close> rejects, with
  the message of its error.
\<close>

datatype payload =
    NotJson ustring
  | Json (errorMessage: "ustring option") (topMessage: "ustring option")
      (completion: "ustring option")

text \<open>
  \<open>fetch\<close> either rejects (the flag says whether with a \<open>TypeError\<close>, as a network
  failure does) or resolves with status, status text and body.
\<close>

datatype fetch_outcome =
    Rejected bool ustring
  | Responded nat ustring payload

text \<open>The Portkey SDK call either throws or returns the completion text, if any.\<close>

datatype sdk_outcome = SdkThrows | SdkReturns "ustring option"

type_synonym net_outcome = "sdk_outcome \<times> fetch_outcome"

definition ok :: "nat \<Rightarrow> bool" where
  "ok st = (200 \<le> st \<and> st \<le> 299)"

definition js_includes :: "ustring \<Rightarrow> ustring \<Rightarrow> bool" where
  "js_includes s pat = (split_first pat s \<noteq> None)"

definition errorDetails :: "payload \<Rightarrow> ustring" where
  "errorDetails body =
     (case body of
        NotJson e \<Rightarrow> js ''Unknown error''
      | Json e m c \<Rightarrow> orElse e (orElse m (js ''Unknown error'')))"

definition plainResponse :: "ustring \<Rightarrow> LLMResponse" where
  "plainResponse s = \<lparr> summary = s, error = None, fromCache = None, cachedAt = None \<rparr>"

subsection \<open>\<open>BaseAPIProvider\<close>\<close>

definition validateConfig :: "APIConfig option \<Rightarrow> ustring + APIConfig" where
  "validateConfig cfg =
     (case cfg of
        None \<Rightarrow> Inl (js ''API provider not initialized. Call initialize() first.'')
      | Some c \<Rightarrow> if apiKey c = [] then Inl (js ''API key is required'') else Inr c)"

subsection \<open>The request an adapter builds\<close>

text \<open>
  Each \<open>callAPI\<close> starts with the block "Convert text to ChatMessage format if needed":
  the Claude adapter turns a text into one user message, the other three into a system
  message and a user message; a message list is taken as it is.
\<close>

definition adapterMessages ::
  "APIProvider \<Rightarrow> messagesOrText \<Rightarrow> Language \<Rightarrow> CustomPrompts option \<Rightarrow> ChatMessage list" where
  "adapterMessages p messagesOrText lang cp =
     (case messagesOrText of
        Messages ms \<Rightarrow> ms
      | Text t \<Rightarrow>
          (case p of
             Claude \<Rightarrow> [\<lparr> role = User, content = createPrompt t lang cp \<rparr>]
           | _ \<Rightarrow> [\<lparr> role = System, content = systemPrompt (getPromptConfig lang cp) \<rparr>,
                   \<lparr> role = User, content = createPrompt t lang cp \<rparr>]))"

record RequestBody =
  model :: ustring
  body_messages :: "ChatMessage list"
  max_tokens :: nat
  body_temperature :: "real option"

definition requestBody ::
  "APIProvider \<Rightarrow> APIConfig \<Rightarrow> messagesOrText \<Rightarrow> Language \<Rightarrow> CustomPrompts option \<Rightarrow> RequestBody" where
  "requestBody p c messagesOrText lang cp =
     \<lparr> model = getModelIdentifier p (modelIdentifier c),
       body_messages = adapterMessages p messagesOrText lang cp,
       max_tokens = maxTokens (getPromptConfig lang cp),
       body_temperature =
         (case p of Claude \<Rightarrow> None | _ \<Rightarrow> Some (temperature (getPromptConfig lang cp))) \<rparr>"

subsection \<open>Reading the answer\<close>

text \<open>
  The four adapters read the answer of \<open>fetch\<close> in the same way and differ in their
  texts: the prefix of the failure message, the hint added for some status codes and the
  message of a network failure. An \<open>Inl\<close> is a thrown \<open>Error\<close> with that message.
\<close>

definition readResponse ::
  "ustring \<Rightarrow> (nat \<Rightarrow> ustring) \<Rightarrow> ustring \<Rightarrow> fetch_outcome \<Rightarrow> ustring + LLMResponse" where
  "readResponse failed tip networkError out =
     (case out of
        Rejected isTypeError msg \<Rightarrow>
          if isTypeError \<and> js_includes msg (js ''fetch'') then Inl networkError else Inl msg
      | Responded st stText body \<Rightarrow>
          if \<not> ok st
          then Inl (failed @ js '' ('' @ show_nat st @ js '' '' @ stText @ js ''): ''
                    @ errorDetails body @ tip st)
          else (case body of
                  NotJson e \<Rightarrow> Inl e
                | Json e m c \<Rightarrow> Inr (plainResponse (orElse c (js ''No response generated'')))))"

definition claudeTip :: "nat \<Rightarrow> ustring" where
  "claudeTip st = []"

definition openaiTip :: "nat \<Rightarrow> ustring" where
  "openaiTip st =
     (if st = 401
      then [10, 10] @ js ''Tip: Check if your OpenAI API key is valid. Get one from https://platform.openai.com/''
      else if st = 404
      then [10, 10] @ js ''Tip: The model may not be available. Check available models at https://platform.openai.com/docs/models''
      else if st = 429
      then [10, 10] @ js ''Tip: Rate limit exceeded. Please wait before trying again or check your usage limits.''
      else if st \<ge> 500
      then [10, 10] @ js ''Tip: OpenAI service error. The service may be temporarily unavailable.''
      else [])"

definition openrouterTip :: "nat \<Rightarrow> ustring" where
  "openrouterTip st =
     (if st = 401
      then [10, 10] @ js ''Tip: Check if your API key is valid and active.''
      else if st = 429
      then [10, 10] @ js ''Tip: You have hit rate limits. Please wait before trying again.''
      else if st \<ge> 500
      then [10, 10] @ js ''Tip: This is a server error. The API service may be temporarily unavailable.''
      else [])"

definition portkeyTip :: "nat \<Rightarrow> ustring" where
  "portkeyTip st =
     (if st = 401
      then [10, 10] @ js ''Tip: Check if your Portkey API key is valid and active.''
      else if st = 403
      then [10, 10] @ js ''Tip: Check if your virtual key is valid and has the required permissions.''
      else if st = 429
      then [10, 10] @ js ''Tip: You have hit rate limits. Please wait before trying again.''
      else if st \<ge> 500
      then [10, 10] @ js ''Tip: This is a server error. The Portkey service may be temporarily unavailable.''
      else [])"

text \<open>
  \<open>answer\<close> is what the network returns for the request body an adapter sends. The
  parameters \<open>language\<close> and \<open>customPrompts\<close> of \<open>callAPI\<close> are \<open>lang\<close> and \<open>cp\<close>;
  every caller in the program passes a language, so the default of the parameter is not
  used.
\<close>

type_synonym answer = "RequestBody \<Rightarrow> net_outcome"

definition claude_callAPI ::
  "APIConfig option \<Rightarrow> answer \<Rightarrow> messagesOrText \<Rightarrow> Language \<Rightarrow> CustomPrompts option
     \<Rightarrow> ustring + LLMResponse" where
  "claude_callAPI cfg answer messagesOrText lang cp =
     (case validateConfig cfg of
        Inl e \<Rightarrow> Inl e
      | Inr c \<Rightarrow>
          readResponse (js ''Claude API request failed'') claudeTip
            (js ''Network error: Unable to connect to Claude API. Check your internet connection.'')
            (snd (answer (requestBody Claude c messagesOrText lang cp))))"

definition openai_callAPI ::
  "APIConfig option \<Rightarrow> answer \<Rightarrow> messagesOrText \<Rightarrow> Language \<Rightarrow> CustomPrompts option
     \<Rightarrow> ustring + LLMResponse" where
  "openai_callAPI cfg answer messagesOrText lang cp =
     (case validateConfig cfg of
        Inl e \<Rightarrow> Inl e
      | Inr c \<Rightarrow>
          readResponse (js ''OpenAI API request failed'') openaiTip
            (js ''Network error: Unable to connect to OpenAI API. Check your internet connection.'')
            (snd (answer (requestBody OpenAI c messagesOrText lang cp))))"

definition openrouter_callAPI ::
  "APIConfig option \<Rightarrow> answer \<Rightarrow> messagesOrText \<Rightarrow> Language \<Rightarrow> CustomPrompts option
     \<Rightarrow> ustring + LLMResponse" where
  "openrouter_callAPI cfg answer messagesOrText lang cp =
     (case validateConfig cfg of
        Inl e \<Rightarrow> Inl e
      | Inr c \<Rightarrow>
          readResponse (js ''API request failed'') openrouterTip
            (js ''Network error: Unable to connect to API endpoint. Check your internet connection and URL: ''
             @ orElse (apiUrl c) (js ''https://openrouter.ai/api/v1/chat/completions''))
            (snd (answer (requestBody OpenRouter c messagesOrText lang cp))))"

definition callDirectChatAPI :: "APIConfig \<Rightarrow> fetch_outcome \<Rightarrow> ustring + LLMResponse" where
  "callDirectChatAPI c out =
     readResponse (js ''Portkey API request failed'') portkeyTip
       (js ''Network error: Unable to connect to Portkey API endpoint. Check your internet connection and URL: ''
        @ orElse (apiUrl c) (js ''https://api.portkey.ai/v1/chat/completions''))
       out"

text \<open>
  The Portkey adapter tries its SDK first; whatever the SDK throws is dropped and the
  direct call is made instead, with the same body. What the direct call throws is an
  \<open>Error\<close> without a \<open>status\<close> property, so of the outer \<open>catch\<close> only the branch that
  prefixes the message applies.
\<close>

definition portkey_callAPI ::
  "APIConfig option \<Rightarrow> answer \<Rightarrow> messagesOrText \<Rightarrow> Language \<Rightarrow> CustomPrompts option
     \<Rightarrow> ustring + LLMResponse" where
  "portkey_callAPI cfg answer messagesOrText lang cp =
     (case validateConfig cfg of
        Inl e \<Rightarrow> Inl e
      | Inr c \<Rightarrow>
          (case fst (answer (requestBody Portkey c messagesOrText lang cp)) of
             SdkReturns text \<Rightarrow> Inr (plainResponse (orElse text (js ''No response generated'')))
           | SdkThrows \<Rightarrow>
               (case callDirectChatAPI c (snd (answer (requestBody Portkey c messagesOrText lang cp))) of
                  Inl e \<Rightarrow> Inl (js ''Portkey API request failed'' @ js '': '' @ e)
                | Inr r \<Rightarrow> Inr r)))"

definition portkey_callLargeContextAPI ::
  "APIConfig option \<Rightarrow> answer \<Rightarrow> ChatMessage list \<Rightarrow> Language \<Rightarrow> CustomPrompts option
     \<Rightarrow> ustring + LLMResponse" where
  "portkey_callLargeContextAPI cfg answer msgs lang cp =
     portkey_callAPI cfg answer
       (Messages (processLargeContext msgs (maxTokens (getPromptConfig lang cp)))) lang cp"

text \<open>\<open>callAPI\<close> of the adapter registered for a provider.\<close>

definition callAPI ::
  "APIProvider \<Rightarrow> APIConfig option \<Rightarrow> answer \<Rightarrow> messagesOrText \<Rightarrow> Language
     \<Rightarrow> CustomPrompts option \<Rightarrow> ustring + LLMResponse" where
  "callAPI p =
     (case p of
        Claude \<Rightarrow> claude_callAPI
      | OpenAI \<Rightarrow> openai_callAPI
      | OpenRouter \<Rightarrow> openrouter_callAPI
      | Portkey \<Rightarrow> portkey_callAPI)"

section \<open>The state of the service (background.ts)\<close>

datatype Status = Pending | Processing | Completed | Failed

text \<open>
  \<open>PendingRequest\<close>: the fields \<open>id\<close>, \<open>error\<close> and \<open>timestamp\<close> of the source are
  \<open>requestId\<close>, \<open>requestError\<close> and \<open>requestTimestamp\<close> here, the status \<open>'error'\<close> is
  \<open>Failed\<close>.
\<close>

record PendingRequest =
  requestId :: ustring
  tabUrl :: ustring
  status :: Status
  result :: "LLMResponse option"
  requestError :: "ustring option"
  requestTimestamp :: nat

text \<open>An entry of the stored collection \<open>summary_cache\<close>: \<open>{summary, provider, timestamp}\<close>.\<close>

record CacheEntry =
  cachedSummary :: ustring
  cachedProvider :: ustring
  timestamp :: nat

datatype call = CallAPI messagesOrText | CallLargeContextAPI "ChatMessage list"

type_synonym providerEvent = "APIProvider \<times> call \<times> (ustring + LLMResponse)"

text \<open>
  The fields of \<open>BackgroundService\<close> (\<open>pendingRequests\<close>, \<open>conversationContexts\<close>, and of
  each adapter in \<open>apiProviders\<close> its \<open>config\<close>), the persistent store
  (\<open>summary_cache\<close> with its two settings, and whether the store can be reached), the
  clock, and two histories that the program does not keep but the claims speak about:
  the adapter calls made, each with its outcome, and the calls of \<open>SummaryCache.set\<close>.
\<close>

record world =
  pendingRequests :: "ustring \<rightharpoonup> PendingRequest"
  conversationContexts :: "ustring \<rightharpoonup> ChatMessage list"
  apiProviders :: "APIProvider \<Rightarrow> APIConfig option"
  summary_cache :: "(ustring \<times> CacheEntry) list"
  maxCacheSize :: nat
  cacheExpiryDays :: nat
  storageAvailable :: bool
  now :: nat
  providerCalls :: "providerEvent list"
  cacheSetCalls :: "(ustring \<times> Language \<times> ustring \<times> ustring) list"

text \<open>The network: what it returns to the \<open>n\<close>-th adapter call for the body sent.\<close>

type_synonym network = "nat \<Rightarrow> answer"

subsection \<open>Summary cache\<close>

definition languageName :: "Language \<Rightarrow> ustring" where
  "languageName l = (case l of Chinese \<Rightarrow> js ''chinese'' | English \<Rightarrow> js ''english'')"

definition cacheKey :: "ustring \<Rightarrow> Language \<Rightarrow> ustring" where
  "cacheKey u lang = u @ js ''|'' @ languageName lang"

text \<open>
  \<open>getCacheEntry\<close> reads the stored collection itself; when the store cannot be read the
  error is caught and the result is \<open>null\<close>.
\<close>

definition getCacheEntry :: "world \<Rightarrow> ustring \<Rightarrow> Language \<Rightarrow> CacheEntry option" where
  "getCacheEntry w u lang =
     (if storageAvailable w then map_of (summary_cache w) (cacheKey u lang) else None)"

text \<open>
  Modelled from the spec: \<open>SummaryCache\<close> (cache.ts) is not among the sources. Section
  4.2 of the specification: \<open>get\<close> returns absent if there is no entry or if the entry's
  age exceeds the configured expiry; \<open>set\<close> inserts or overwrites the entry with the
  current timestamp, after evicting, when the store is at or above its maximum entry
  count, enough of the oldest entries to make room; \<open>clear\<close> removes all entries. Section
  7: a failing read is a miss, a failing write does nothing.
\<close>

definition SummaryCache_get :: "world \<Rightarrow> ustring \<Rightarrow> Language \<Rightarrow> ustring option" where
  "SummaryCache_get w u lang =
     (if \<not> storageAvailable w then None
      else (case map_of (summary_cache w) (cacheKey u lang) of
              None \<Rightarrow> None
            | Some e \<Rightarrow>
                if now w - timestamp e > cacheExpiryDays w * 86400000 then None
                else Some (cachedSummary e)))"

fun evictOldest :: "nat \<Rightarrow> (ustring \<times> CacheEntry) list \<Rightarrow> (ustring \<times> CacheEntry) list" where
  "evictOldest 0 es = es"
| "evictOldest (Suc n) es =
     (if es = [] then []
      else evictOldest n (remove1 (arg_min_list (\<lambda>(k, e). timestamp e) es) es))"

definition SummaryCache_set ::
  "world \<Rightarrow> ustring \<Rightarrow> Language \<Rightarrow> ustring \<Rightarrow> ustring \<Rightarrow> world" where
  "SummaryCache_set w u lang s prov =
     (let called = w\<lparr> cacheSetCalls := cacheSetCalls w @ [(u, lang, s, prov)] \<rparr>;
          es = summary_cache w;
          room = (if length es \<ge> maxCacheSize w
                  then evictOldest (length es - maxCacheSize w + 1) es else es);
          entry = \<lparr> cachedSummary = s, cachedProvider = prov, timestamp = now w \<rparr>
      in if storageAvailable w
         then called\<lparr> summary_cache :=
                (cacheKey u lang, entry) # filter (\<lambda>(k, e). k \<noteq> cacheKey u lang) room \<rparr>
         else called)"

definition SummaryCache_clear :: "world \<Rightarrow> world" where
  "SummaryCache_clear w = (if storageAvailable w then w\<lparr> summary_cache := [] \<rparr> else w)"

subsection \<open>Calling an adapter\<close>

definition lookupProvider :: "ustring \<Rightarrow> APIProvider option" where
  "lookupProvider name =
     (if name = js ''claude'' then Some Claude
      else if name = js ''openai'' then Some OpenAI
      else if name = js ''openrouter'' then Some OpenRouter
      else if name = js ''portkey'' then Some Portkey
      else None)"

definition getApiProvider :: "ustring \<Rightarrow> ustring + APIProvider" where
  "getApiProvider name =
     (case lookupProvider name of
        None \<Rightarrow> Inl (js ''Unknown API provider: '' @ name)
      | Some p \<Rightarrow> Inr p)"

definition initialize :: "APIProvider \<Rightarrow> APIConfig \<Rightarrow> world \<Rightarrow> world" where
  "initialize p config w = w\<lparr> apiProviders := (apiProviders w)(p := Some config) \<rparr>"

text \<open>
  An adapter call as the service makes it: the adapter works with the configuration it was
  last initialised with and with what the network answers to this call, and the call is
  entered in the history.
\<close>

definition adapterCall ::
  "network \<Rightarrow> APIProvider \<Rightarrow> call \<Rightarrow> Language \<Rightarrow> CustomPrompts option \<Rightarrow> world
     \<Rightarrow> (ustring + LLMResponse) \<times> world" where
  "adapterCall net p c lang cp w =
     (let answer = net (length (providerCalls w));
          r = (case c of
                 CallAPI messagesOrText \<Rightarrow> callAPI p (apiProviders w p) answer messagesOrText lang cp
               | CallLargeContextAPI msgs \<Rightarrow>
                   portkey_callLargeContextAPI (apiProviders w p) answer msgs lang cp)
      in (r, w\<lparr> providerCalls := providerCalls w @ [(p, c, r)] \<rparr>))"

subsection \<open>Chunked processing of an extremely large context\<close>

definition estimatedTokens :: "ChatMessage list \<Rightarrow> nat" where
  "estimatedTokens msgs = (chunkSize msgs + 3) div 4"

definition roleName :: "role \<Rightarrow> ustring" where
  "roleName r =
     (case r of System \<Rightarrow> js ''system'' | User \<Rightarrow> js ''user'' | Assistant \<Rightarrow> js ''assistant'')"

text \<open>\<open>xs.join('\n')\<close>\<close>

fun joinLines :: "ustring list \<Rightarrow> ustring" where
  "joinLines [] = []"
| "joinLines [x] = x"
| "joinLines (x # y # r) = x @ [10] @ joinLines (y # r)"

text \<open>What one chunk adds to \<open>processedContext\<close>.\<close>

definition renderChunk :: "ChatMessage list \<Rightarrow> ustring" where
  "renderChunk chunk =
     [10, 10] @ joinLines (map (\<lambda>msg. roleName (role msg) @ js '': '' @ content msg) chunk)"

definition summaryMessage :: "ustring \<Rightarrow> Language \<Rightarrow> ChatMessage" where
  "summaryMessage s lang =
     \<lparr> role = System,
       content =
         (if lang = Chinese
          then [20043, 21069, 30340, 23545, 35805, 25688, 35201, 65306] @ s
               @ [10, 10, 35831, 22522, 20110, 36825, 20010, 25688, 35201, 21644, 24403,
                  21069, 23545, 35805, 32487, 32493, 22238, 31572, 12290]
          else js ''Previous conversation summary: '' @ s @ [10, 10]
               @ js ''Please continue the conversation based on this summary and the current dialogue.'') \<rparr>"

definition integrateSummaryWithChunk ::
  "ChatMessage list \<Rightarrow> ustring \<Rightarrow> Language \<Rightarrow> ChatMessage list" where
  "integrateSummaryWithChunk chunk s lang =
     (if s = [] then chunk else summaryMessage s lang # chunk)"

text \<open>
  The \<open>for\<close> loop of \<open>handleExtremelyLargeContext\<close>: \<open>i\<close> is the index of the first of
  the chunks still to be processed. A synopsis call that throws is caught and only
  logged, and \<open>conversationSummary\<close> keeps its value; a chunk call that throws is thrown
  on. The response is returned at the last chunk; the \<open>throw\<close> after the loop is reached
  when there was no chunk at all.
\<close>

fun processChunks ::
  "network \<Rightarrow> Language \<Rightarrow> CustomPrompts option \<Rightarrow> nat \<Rightarrow> ChatMessage list list
     \<Rightarrow> ustring \<Rightarrow> ustring \<Rightarrow> world \<Rightarrow> (ustring + LLMResponse) \<times> world" where
  "processChunks net lang cp i [] processedContext conversationSummary w =
     (Inl (js ''Failed to process large context''), w)"
| "processChunks net lang cp i (chunk # rest) processedContext conversationSummary w =
     (case (if i > 0 \<and> length processedContext > 0
            then (case adapterCall net Portkey (CallAPI (Text processedContext)) lang cp w of
                    (Inr summaryResponse, w1) \<Rightarrow> (summary summaryResponse, w1)
                  | (Inl e, w1) \<Rightarrow> (conversationSummary, w1))
            else (conversationSummary, w)) of
        (conversationSummary', w1) \<Rightarrow>
          (case adapterCall net Portkey
                  (CallLargeContextAPI
                     (integrateSummaryWithChunk chunk conversationSummary' lang)) lang cp w1 of
             (Inl e, w2) \<Rightarrow> (Inl e, w2)
           | (Inr response, w2) \<Rightarrow>
               if rest = [] then (Inr response, w2)
               else processChunks net lang cp (Suc i) rest
                      (processedContext @ renderChunk chunk) conversationSummary' w2))"

definition handleExtremelyLargeContext ::
  "network \<Rightarrow> ChatMessage list \<Rightarrow> APIConfig \<Rightarrow> Language \<Rightarrow> CustomPrompts option \<Rightarrow> world
     \<Rightarrow> (ustring + LLMResponse) \<times> world" where
  "handleExtremelyLargeContext net msgs config lang cp w =
     (let w1 = initialize Portkey config w in
      if estimatedTokens msgs < 100000
      then adapterCall net Portkey (CallLargeContextAPI msgs) lang cp w1
      else processChunks net lang cp 0 (chunkLargeContext msgs) [] [] w1)"

subsection \<open>\<open>callLLMAPI\<close>\<close>

definition contextKey :: "int \<Rightarrow> ustring" where
  "contextKey t = js ''tab_'' @ show_int t"

definition requestConfig :: "ChatRequest \<Rightarrow> APIConfig" where
  "requestConfig request =
     \<lparr> apiKey = apiKey request, apiUrl = apiUrl request, virtualKey = virtualKey request,
       modelIdentifier = modelIdentifier request,
       language = Some (orChinese (language request)),
       customPrompts = customPrompts request \<rparr>"

text \<open>
  The body of the \<open>try\<close> block; \<open>Inl\<close> is an error thrown in it. The Portkey adapter is
  the one adapter with a \<open>callLargeContextAPI\<close>, so for the provider \<open>'portkey'\<close> one of
  the two \<open>return\<close>s of the block "special handling for large contexts" is always taken.
\<close>

definition callLLMAPI_try ::
  "network \<Rightarrow> ChatRequest \<Rightarrow> world \<Rightarrow> (ustring + LLMResponse) \<times> world" where
  "callLLMAPI_try net request w =
     (let msgs = messages request;
          lang = orChinese (language request);
          cp = customPrompts request;
          u = orElse (url request) [];
          cachedSummary =
            (if truthy (url request) \<and> forceFresh request \<noteq> Some True \<and> isTextSummarization msgs
             then SummaryCache_get w u lang else None)
      in if truthy cachedSummary
         then (Inr \<lparr> summary = orElse cachedSummary [], error = None, fromCache = Some True,
                     cachedAt = map_option timestamp (getCacheEntry w u lang) \<rparr>, w)
         else
           (let w1 = (case tabId request of
                        None \<Rightarrow> w
                      | Some t \<Rightarrow>
                          w\<lparr> conversationContexts :=
                               (conversationContexts w)(contextKey t \<mapsto> msgs) \<rparr>)
            in case getApiProvider (provider request) of
                 Inl e \<Rightarrow> (Inl e, w1)
               | Inr p \<Rightarrow>
                   (let w2 = initialize p (requestConfig request) w1 in
                    if provider request = js ''portkey''
                    then (if estimatedTokens msgs > 100000
                          then handleExtremelyLargeContext net msgs (requestConfig request) lang cp w2
                          else adapterCall net p (CallLargeContextAPI msgs) lang cp w2)
                    else (case adapterCall net p (CallAPI (Messages msgs)) lang cp w2 of
                            (Inl e, w3) \<Rightarrow> (Inl e, w3)
                          | (Inr apiResponse, w3) \<Rightarrow>
                              (Inr apiResponse,
                               if truthy (url request) \<and> summary apiResponse \<noteq> []
                                  \<and> \<not> truthy (error apiResponse) \<and> isTextSummarization msgs
                               then SummaryCache_set w3 u lang (summary apiResponse)
                                      (provider request)
                               else w3)))))"

text \<open>
  \<open>callLLMAPI\<close> with its \<open>catch\<close>: the promise it returns could only reject through
  \<open>Inl\<close>, which the \<open>catch\<close> never produces.
\<close>

definition callLLMAPI ::
  "network \<Rightarrow> ChatRequest \<Rightarrow> world \<Rightarrow> (ustring + LLMResponse) \<times> world" where
  "callLLMAPI net request w =
     (case callLLMAPI_try net request w of
        (Inr r, w') \<Rightarrow> (Inr r, w')
      | (Inl e, w') \<Rightarrow>
          (Inr \<lparr> summary = [], error = Some e, fromCache = None, cachedAt = None \<rparr>, w'))"

subsection \<open>Asynchronous requests\<close>

definition generateRequestId :: "world \<Rightarrow> ustring \<Rightarrow> ustring" where
  "generateRequestId w random = js ''req_'' @ show_nat (now w) @ js ''_'' @ random"

text \<open>
  \<open>processLLMRequest\<close>: the request object read at the start is the one written back at
  the end, with its status and its result or error set.
\<close>

definition processLLMRequest :: "network \<Rightarrow> ustring \<Rightarrow> ChatRequest \<Rightarrow> world \<Rightarrow> world" where
  "processLLMRequest net rid request w =
     (case pendingRequests w rid of
        None \<Rightarrow> w
      | Some pendingRequest \<Rightarrow>
          (let w1 = w\<lparr> pendingRequests :=
                        (pendingRequests w)(rid \<mapsto> pendingRequest\<lparr> status := Processing \<rparr>) \<rparr>
           in case callLLMAPI net request w1 of
                (Inr r, w2) \<Rightarrow>
                  w2\<lparr> pendingRequests :=
                        (pendingRequests w2)(rid \<mapsto>
                           pendingRequest\<lparr> status := Completed, result := Some r \<rparr>) \<rparr>
              | (Inl e, w2) \<Rightarrow>
                  w2\<lparr> pendingRequests :=
                        (pendingRequests w2)(rid \<mapsto>
                           pendingRequest\<lparr> status := Failed, requestError := Some e \<rparr>) \<rparr>))"

text \<open>
  \<open>startLLMRequest\<close> registers the request and starts \<open>processLLMRequest\<close>, whose promise
  never rejects (its body is the lookup and the \<open>try\<close> statement), so the handler
  attached with \<open>catch\<close> does not run. The model runs the processing to its end.
\<close>

definition startLLMRequest ::
  "network \<Rightarrow> ustring \<Rightarrow> ChatRequest \<Rightarrow> ustring option \<Rightarrow> world \<Rightarrow> ustring \<times> world" where
  "startLLMRequest net random request rid w =
     (let ident = orElse rid (generateRequestId w random);
          pendingRequest =
            \<lparr> requestId = ident, tabUrl = orElse (url request) [], status = Pending,
              result = None, requestError = None, requestTimestamp = now w \<rparr>;
          w1 = w\<lparr> pendingRequests := (pendingRequests w)(ident \<mapsto> pendingRequest) \<rparr>
      in (ident, processLLMRequest net ident request w1))"

definition getRequestStatus :: "world \<Rightarrow> ustring \<Rightarrow> PendingRequest option" where
  "getRequestStatus w rid = pendingRequests w rid"

definition getConversationContext :: "world \<Rightarrow> int \<Rightarrow> ChatMessage list option" where
  "getConversationContext w t = conversationContexts w (contextKey t)"

definition clearConversationContext :: "int \<Rightarrow> world \<Rightarrow> world" where
  "clearConversationContext t w =
     w\<lparr> conversationContexts := (conversationContexts w)(contextKey t := None) \<rparr>"

subsection \<open>The message listener\<close>

text \<open>
  A boundary message: its \<open>action\<close> tag and the properties the listener reads.
  \<open>request.data\<close> is \<open>msg_text\<close> (its \<open>text\<close>) and \<open>msg_data\<close> (the rest of it).
\<close>

record BoundaryMessage =
  action :: ustring
  msg_tabId :: "int option"
  msg_requestId :: "ustring option"
  msg_url :: "ustring option"
  msg_forceFresh :: "bool option"
  msg_text :: ustring
  msg_data :: ChatRequest

text \<open>
  What the collaborators outside the orchestrator deliver: the list of tabs, the text of
  a page, whether the detached window could be opened, the approximate size of the
  stored cache, and the random part of a generated request id.
\<close>

record collaborators =
  tabs :: "(int \<times> ustring \<times> ustring) list"
  pageText :: "int option \<Rightarrow> ustring"
  windowOpens :: bool
  storageSize :: nat
  random :: ustring

datatype Response =
    TabsResponse "(int \<times> ustring \<times> ustring) list"
  | TextResponse ustring
  | RequestIdResponse ustring
  | StatusResponse "PendingRequest option"
  | SummaryResponse LLMResponse
  | UndefinedResponse
  | StatsResponse nat nat
  | SuccessResponse
  | ContextResponse "ChatMessage list option"
  | ErrorResponse ustring

definition knownActions :: "ustring list" where
  "knownActions =
     [js ''getAllTabs'', js ''extractTabText'', js ''startSummarize'', js ''getRequestStatus'',
      js ''summarizeText'', js ''openDetachedWindow'', js ''getCacheStats'', js ''clearCache'',
      js ''chatMessage'', js ''getConversationContext'', js ''clearConversationContext'']"

definition summarizeRequest :: "BoundaryMessage \<Rightarrow> ChatRequest" where
  "summarizeRequest m =
     (msg_data m)\<lparr> messages :=
                     textToChatMessages (msg_text m) (language (msg_data m))
                       (customPrompts (msg_data m)),
                   url := msg_url m,
                   forceFresh := msg_forceFresh m \<rparr>"

text \<open>
  The listener: the response passed to \<open>sendResponse\<close>, if one is sent, and the state
  afterwards. A promise that rejects sends no response. The statistics of the cache
  (\<open>SummaryCache.getStats\<close>, not among the sources) are, after section 4.2 of the
  specification, the number of entries and an approximate size of the store.
\<close>

definition onMessage ::
  "network \<Rightarrow> collaborators \<Rightarrow> BoundaryMessage \<Rightarrow> world \<Rightarrow> Response option \<times> world" where
  "onMessage net env m w =
     (if action m = js ''getAllTabs'' then (Some (TabsResponse (tabs env)), w)
      else if action m = js ''extractTabText''
      then (Some (TextResponse (pageText env (msg_tabId m))), w)
      else if action m = js ''startSummarize''
      then (case startLLMRequest net (random env) (summarizeRequest m) (msg_requestId m) w of
              (rid, w') \<Rightarrow> (Some (RequestIdResponse rid), w'))
      else if action m = js ''getRequestStatus''
      then (Some (StatusResponse
                    (case msg_requestId m of None \<Rightarrow> None | Some rid \<Rightarrow> getRequestStatus w rid)), w)
      else if action m = js ''summarizeText''
      then (case callLLMAPI net (summarizeRequest m) w of
              (Inr r, w') \<Rightarrow> (Some (SummaryResponse r), w')
            | (Inl e, w') \<Rightarrow> (None, w'))
      else if action m = js ''openDetachedWindow''
      then (if windowOpens env then (Some UndefinedResponse, w) else (None, w))
      else if action m = js ''getCacheStats''
      then (Some (StatsResponse (length (summary_cache w)) (storageSize env)), w)
      else if action m = js ''clearCache'' then (Some SuccessResponse, SummaryCache_clear w)
      else if action m = js ''chatMessage''
      then (case callLLMAPI net ((msg_data m)\<lparr> tabId := msg_tabId m \<rparr>) w of
              (Inr r, w') \<Rightarrow> (Some (SummaryResponse r), w')
            | (Inl e, w') \<Rightarrow> (None, w'))
      else if action m = js ''getConversationContext''
      then (Some (ContextResponse
                    (case msg_tabId m of None \<Rightarrow> None | Some t \<Rightarrow> getConversationContext w t)), w)
      else if action m = js ''clearConversationContext''
      then (Some SuccessResponse,
            (case msg_tabId m of None \<Rightarrow> w | Some t \<Rightarrow> clearConversationContext t w))
      else (Some (ErrorResponse (js ''Unknown action'')), w))"

section \<open>Notions used in the statements\<close>

text \<open>A chunk as the chunker may emit it: not empty, and within the budget or one message.\<close>

definition okChunk :: "ChatMessage list \<Rightarrow> bool" where
  "okChunk c = (c \<noteq> [] \<and> (chunkSize c \<le> maxChunkSize \<or> length c = 1))"

text \<open>
  A template with a text interpolated, in the words of the specification: the text stands
  where the placeholder \<open>{text}\<close> first stood; a template without the placeholder stays
  as it is.
\<close>

definition interpolated :: "ustring \<Rightarrow> ustring \<Rightarrow> ustring" where
  "interpolated text template =
     (case split_first (js ''{text}'') template of
        None \<Rightarrow> template
      | Some (pre, post) \<Rightarrow> pre @ text @ post)"


text \<open>
  The message of the error an adapter throws for a response that is not ok: what stands
  before the status, and the hint that follows the details.
\<close>

definition failurePrefix :: "APIProvider \<Rightarrow> ustring" where
  "failurePrefix p =
     (case p of
        Claude \<Rightarrow> js ''Claude API request failed''
      | OpenAI \<Rightarrow> js ''OpenAI API request failed''
      | OpenRouter \<Rightarrow> js ''API request failed''
      | Portkey \<Rightarrow> js ''Portkey API request failed: Portkey API request failed'')"

definition statusTip :: "APIProvider \<Rightarrow> nat \<Rightarrow> ustring" where
  "statusTip p =
     (case p of
        Claude \<Rightarrow> claudeTip
      | OpenAI \<Rightarrow> openaiTip
      | OpenRouter \<Rightarrow> openrouterTip
      | Portkey \<Rightarrow> portkeyTip)"

text \<open>The request is a cache hit: the cache is consulted and holds a summary for it.\<close>

definition cacheHit :: "ChatRequest \<Rightarrow> world \<Rightarrow> bool" where
  "cacheHit request w =
     (truthy (url request) \<and> forceFresh request \<noteq> Some True \<and>
      isTextSummarization (messages request) \<and>
      truthy (SummaryCache_get w (orElse (url request) []) (orChinese (language request))))"

text \<open>A call of the Portkey adapter returns when the SDK returns or the direct call is answered with a completion.\<close>

definition answers :: "net_outcome \<Rightarrow> bool" where
  "answers out =
     (case fst out of
        SdkReturns t \<Rightarrow> True
      | SdkThrows \<Rightarrow>
          (case snd out of
             Responded st stText (Json e m c) \<Rightarrow> ok st
           | _ \<Rightarrow> False))"

definition isChunkCall :: "providerEvent \<Rightarrow> bool" where
  "isChunkCall ev = (case fst (snd ev) of CallLargeContextAPI msgs \<Rightarrow> True | CallAPI x \<Rightarrow> False)"

definition outcome :: "providerEvent \<Rightarrow> ustring + LLMResponse" where
  "outcome ev = snd (snd ev)"

text \<open>One text occurs in another, as a run of consecutive characters.\<close>

definition occursIn :: "ustring \<Rightarrow> ustring \<Rightarrow> bool" where
  "occursIn pat s = (\<exists>i\<in>{..length s}. take (length pat) (drop i s) = pat)"

text \<open>
  The calls of the chunked path after the first chunk, in the words of the
  specification. \<open>processed\<close> are the messages of the chunks processed so far and
  \<open>synopsis\<close> is the running synopsis. For every further chunk there are two calls of the
  Portkey adapter: first a synopsis is requested for a text in which the content of every
  message processed so far occurs; then the chunk is sent, and when the synopsis (the one
  just returned, or the earlier one when the request failed) is not empty, one message
  stands in front of the chunk: it has the role \<open>system\<close> and the synopsis occurs in its
  content. Every chunk call returns.
\<close>

fun chunkedCalls ::
  "ChatMessage list \<Rightarrow> ustring \<Rightarrow> ChatMessage list list \<Rightarrow> providerEvent list \<Rightarrow> bool" where
  "chunkedCalls processed synopsis [] evs = (evs = [])"
| "chunkedCalls processed synopsis (chunk # rest) ((p1, c1, r1) # (p2, c2, r2) # evs) =
     (p1 = Portkey \<and>
      (case c1 of
         CallAPI (Text t) \<Rightarrow> list_all (\<lambda>m. occursIn (content m) t) processed
       | _ \<Rightarrow> False) \<and>
      p2 = Portkey \<and>
      (case c2 of
         CallLargeContextAPI sent \<Rightarrow>
           (if (case r1 of Inr resp \<Rightarrow> summary resp | Inl e \<Rightarrow> synopsis) = []
            then sent = chunk
            else (case sent of
                    [] \<Rightarrow> False
                  | m # ms \<Rightarrow>
                      role m = System \<and>
                      occursIn (case r1 of Inr resp \<Rightarrow> summary resp | Inl e \<Rightarrow> synopsis)
                        (content m) \<and>
                      ms = chunk))
       | CallAPI x \<Rightarrow> False) \<and>
      (case r2 of Inr resp \<Rightarrow> True | Inl e \<Rightarrow> False) \<and>
      chunkedCalls (processed @ chunk)
        (case r1 of Inr resp \<Rightarrow> summary resp | Inl e \<Rightarrow> synopsis) rest evs)"
| "chunkedCalls processed synopsis (chunk # rest) evs = False"

text \<open>The state after \<open>callLLMAPI\<close> has stored the conversation of the tab, if a tab is given.\<close>

definition afterContext :: "ChatRequest \<Rightarrow> world \<Rightarrow> world" where
  "afterContext request w =
     (case tabId request of
        None \<Rightarrow> w
      | Some t \<Rightarrow> w\<lparr> conversationContexts := (conversationContexts w)(contextKey t \<mapsto> messages request) \<rparr>)"

section \<open>Sample inputs\<close>

definition sampleWorld :: world where
  "sampleWorld =
     \<lparr> pendingRequests = Map.empty, conversationContexts = Map.empty,
       apiProviders = (\<lambda>p. None), summary_cache = [], maxCacheSize = 100,
       cacheExpiryDays = 1, storageAvailable = True, now = 1000, providerCalls = [],
       cacheSetCalls = [] \<rparr>"

definition sampleConfig :: APIConfig where
  "sampleConfig =
     \<lparr> apiKey = js ''key'', apiUrl = None, virtualKey = None, modelIdentifier = None,
       language = Some English, customPrompts = None \<rparr>"

text \<open>A network on which every call is answered with the same completion text.\<close>

definition answering :: "ustring \<Rightarrow> network" where
  "answering s = (\<lambda>n body. (SdkReturns (Some s), Responded 200 (js ''OK'') (Json None None (Some s))))"

text \<open>A network on which every call is refused with status 429.\<close>

definition refusing :: network where
  "refusing =
     (\<lambda>n body. (SdkThrows,
        Responded 429 (js ''Too Many Requests'') (Json (Some (js ''Rate limit reached'')) None None)))"

definition sampleRequest :: ChatRequest where
  "sampleRequest =
     \<lparr> apiKey = js ''key'', apiUrl = None, virtualKey = None, modelIdentifier = None,
       language = Some English, customPrompts = None,
       messages = [\<lparr> role = User, content = js ''Summarize this page.'' \<rparr>],
       provider = js ''openai'', url = Some (js ''https://example.com''),
       forceFresh = None, tabId = None \<rparr>"

text \<open>The sample world with a summary of the sample page in the cache, written at time 500.\<close>

definition cachedWorld :: world where
  "cachedWorld =
     sampleWorld\<lparr> summary_cache :=
       [(js ''https://example.com|english'',
         \<lparr> cachedSummary = js ''A page.'', cachedProvider = js ''openai'', timestamp = 500 \<rparr>)] \<rparr>"

text \<open>
  A network that answers every adapter call with the completion \<open>done\<close>, except the
  call with number \<open>k\<close> (counted from 0), which is refused.
\<close>

definition refusingAt :: "nat \<Rightarrow> network" where
  "refusingAt k = (\<lambda>n. if n = k then refusing n else answering (js ''done'') n)"

definition sampleMessage :: "role \<Rightarrow> nat \<Rightarrow> ChatMessage" where
  "sampleMessage r n = \<lparr> role = r, content = replicate n 97 \<rparr>"

section \<open>Properties\<close>

subsection \<open>The chunker\<close>

lemma chunkSize_simps [simp]:
  "chunkSize [] = 0"
  "chunkSize (m # ms) = length (content m) + chunkSize ms"
  "chunkSize (xs @ ys) = chunkSize xs + chunkSize ys"
  by (simp_all add: chunkSize_def)

lemma chunkLargeContext_loop_invariant:
  "chunkLargeContext_loop ms chunks cur sz = (chunks', cur', sz') \<Longrightarrow>
   sz = chunkSize cur \<Longrightarrow> cur = [] \<or> okChunk cur \<Longrightarrow> \<forall>c\<in>set chunks. okChunk c \<Longrightarrow>
   concat chunks' @ cur' = concat chunks @ cur @ ms \<and> (cur' = [] \<or> okChunk cur') \<and>
   (\<forall>c\<in>set chunks'. okChunk c)"
proof (induction ms arbitrary: chunks cur sz)
  case Nil
  then show ?case by simp
next
  case (Cons m ms)
  show ?case
  proof (cases "sz + length (content m) > maxChunkSize \<and> cur \<noteq> []")
    case True
    with Cons.prems(1) have run:
      "chunkLargeContext_loop ms (chunks @ [cur]) [m] (length (content m)) = (chunks', cur', sz')"
      by (simp add: Let_def)
    have a: "length (content m) = chunkSize [m]" by simp
    have b: "[m] = [] \<or> okChunk [m]" by (simp add: okChunk_def)
    have c: "\<forall>c\<in>set (chunks @ [cur]). okChunk c" using Cons.prems True by auto
    from Cons.IH [OF run a b c] show ?thesis by simp
  next
    case False
    with Cons.prems(1) have run:
      "chunkLargeContext_loop ms chunks (cur @ [m]) (sz + length (content m)) = (chunks', cur', sz')"
      by (simp add: Let_def)
    have a: "sz + length (content m) = chunkSize (cur @ [m])"
      using Cons.prems by simp
    have b: "cur @ [m] = [] \<or> okChunk (cur @ [m])"
      using False Cons.prems by (auto simp: okChunk_def)
    from Cons.IH [OF run a b Cons.prems(4)] show ?thesis by simp
  qed
qed

lemma chunkLargeContext_ok:
  "concat (chunkLargeContext ms) = ms \<and> (\<forall>c\<in>set (chunkLargeContext ms). okChunk c)"
proof -
  obtain chunks cur sz where run: "chunkLargeContext_loop ms [] [] 0 = (chunks, cur, sz)"
    by (metis prod_cases3)
  have "concat chunks @ cur = concat [] @ [] @ ms \<and> (cur = [] \<or> okChunk cur) \<and>
        (\<forall>c\<in>set chunks. okChunk c)"
    by (rule chunkLargeContext_loop_invariant [OF run]) simp_all
  then show ?thesis by (auto simp: chunkLargeContext_def run)
qed

lemma okChunk_budget:
  "okChunk c \<Longrightarrow>
   c \<noteq> [] \<and> (chunkSize c \<le> maxChunkSize \<or> (\<exists>m. c = [m] \<and> maxChunkSize < length (content m)))"
proof -
  assume ok: "okChunk c"
  show ?thesis
  proof (cases "chunkSize c \<le> maxChunkSize")
    case True
    with ok show ?thesis by (simp add: okChunk_def)
  next
    case False
    with ok obtain m where "c = [m]"
      by (auto simp: okChunk_def length_Suc_conv)
    with False ok show ?thesis by (simp add: okChunk_def)
  qed
qed

lemma adapterCall_history:
  "providerCalls (snd (adapterCall net p c lang cp w)) =
     providerCalls w @ [(p, c, fst (adapterCall net p c lang cp w))]"
  by (simp add: adapterCall_def Let_def)

lemma providerCalls_initialize [simp]:
  "providerCalls (initialize p config w) = providerCalls w"
  by (simp add: initialize_def)

text \<open>
  C3. The chunker cuts a message sequence into chunks whose concatenation is the
  sequence: whole messages, in their order, none lost. No chunk is empty, and the content
  lengths of a chunk add up to at most the budget of 50000 unless the chunk is a single
  message that is longer than the budget by itself. When the estimate of the whole
  sequence is below the direct threshold of 100000, \<open>handleExtremelyLargeContext\<close> does
  not chunk: it makes one adapter call, with the whole sequence, and returns its outcome.
\<close>

theorem chunker_partitions_in_order:
  "concat (chunkLargeContext msgs) = msgs \<and>
   (\<forall>c\<in>set (chunkLargeContext msgs).
      c \<noteq> [] \<and>
      (chunkSize c \<le> maxChunkSize \<or> (\<exists>m. c = [m] \<and> maxChunkSize < length (content m)))) \<and>
   (estimatedTokens msgs < 100000 \<longrightarrow>
      handleExtremelyLargeContext net msgs config lang cp w =
        adapterCall net Portkey (CallLargeContextAPI msgs) lang cp (initialize Portkey config w) \<and>
      providerCalls (snd (handleExtremelyLargeContext net msgs config lang cp w)) =
        providerCalls w @
          [(Portkey, CallLargeContextAPI msgs,
            fst (handleExtremelyLargeContext net msgs config lang cp w))])"
proof (intro conjI ballI impI)
  show "concat (chunkLargeContext msgs) = msgs"
    using chunkLargeContext_ok [of msgs] by simp
next
  fix c assume "c \<in> set (chunkLargeContext msgs)"
  then have ok: "okChunk c" using chunkLargeContext_ok [of msgs] by simp
  from okChunk_budget [OF ok] show "c \<noteq> []" by simp
  from okChunk_budget [OF ok]
  show "chunkSize c \<le> maxChunkSize \<or> (\<exists>m. c = [m] \<and> maxChunkSize < length (content m))"
    by simp
next
  assume small: "estimatedTokens msgs < 100000"
  then show direct: "handleExtremelyLargeContext net msgs config lang cp w =
        adapterCall net Portkey (CallLargeContextAPI msgs) lang cp (initialize Portkey config w)"
    by (simp add: handleExtremelyLargeContext_def Let_def)
  show "providerCalls (snd (handleExtremelyLargeContext net msgs config lang cp w)) =
        providerCalls w @
          [(Portkey, CallLargeContextAPI msgs,
            fst (handleExtremelyLargeContext net msgs config lang cp w))]"
    unfolding direct by (simp add: adapterCall_history)
qed

theorem chunker_partitions_in_order_witness:
  "chunkLargeContext
     [sampleMessage User 30000, sampleMessage Assistant 30000, sampleMessage User 60000] =
     [[sampleMessage User 30000], [sampleMessage Assistant 30000], [sampleMessage User 60000]] \<and>
   concat (chunkLargeContext
     [sampleMessage User 30000, sampleMessage Assistant 30000, sampleMessage User 60000]) =
     [sampleMessage User 30000, sampleMessage Assistant 30000, sampleMessage User 60000] \<and>
   estimatedTokens
     [sampleMessage User 30000, sampleMessage Assistant 30000, sampleMessage User 60000] < 100000 \<and>
   providerCalls (snd (handleExtremelyLargeContext (answering (js ''done''))
     [sampleMessage User 30000, sampleMessage Assistant 30000, sampleMessage User 60000]
     sampleConfig English None sampleWorld)) =
     [(Portkey,
       CallLargeContextAPI
         [sampleMessage User 30000, sampleMessage Assistant 30000, sampleMessage User 60000],
       Inr (plainResponse (js ''done'')))]"
proof -
  have small: "estimatedTokens
     [sampleMessage User 30000, sampleMessage Assistant 30000, sampleMessage User 60000] < 100000"
    by (simp add: estimatedTokens_def sampleMessage_def)
  have r: "fst (adapterCall (answering (js ''done'')) Portkey (CallLargeContextAPI [sampleMessage User 30000, sampleMessage Assistant 30000, sampleMessage User 60000]) English None (initialize Portkey sampleConfig sampleWorld))
      = Inr (plainResponse (js ''done''))"
    by (simp add: adapterCall_def Let_def portkey_callLargeContextAPI_def portkey_callAPI_def
         initialize_def sampleWorld_def sampleConfig_def validateConfig_def answering_def orElse_def)
  have chunks: "chunkLargeContext
     [sampleMessage User 30000, sampleMessage Assistant 30000, sampleMessage User 60000] =
     [[sampleMessage User 30000], [sampleMessage Assistant 30000], [sampleMessage User 60000]]"
    by (simp add: chunkLargeContext_def sampleMessage_def maxChunkSize_def)
  note T = chunker_partitions_in_order [of
     "[sampleMessage User 30000, sampleMessage Assistant 30000, sampleMessage User 60000]"
     "answering (js ''done'')" sampleConfig English None sampleWorld]
  from T have whole: "concat (chunkLargeContext
     [sampleMessage User 30000, sampleMessage Assistant 30000, sampleMessage User 60000]) =
     [sampleMessage User 30000, sampleMessage Assistant 30000, sampleMessage User 60000]"
    by (rule conjunct1)
  from T small have direct: "handleExtremelyLargeContext (answering (js ''done''))
     [sampleMessage User 30000, sampleMessage Assistant 30000, sampleMessage User 60000]
     sampleConfig English None sampleWorld =
     adapterCall (answering (js ''done'')) Portkey
       (CallLargeContextAPI
          [sampleMessage User 30000, sampleMessage Assistant 30000, sampleMessage User 60000])
       English None (initialize Portkey sampleConfig sampleWorld)"
    by blast
  have "providerCalls sampleWorld = []" by (simp add: sampleWorld_def)
  then have history: "providerCalls (snd (handleExtremelyLargeContext (answering (js ''done''))
     [sampleMessage User 30000, sampleMessage Assistant 30000, sampleMessage User 60000]
     sampleConfig English None sampleWorld)) =
     [(Portkey,
       CallLargeContextAPI
         [sampleMessage User 30000, sampleMessage Assistant 30000, sampleMessage User 60000],
       Inr (plainResponse (js ''done'')))]"
    unfolding direct adapterCall_history r by simp
  from chunks whole small history show ?thesis by (intro conjI)
qed

subsection \<open>Portkey's truncation\<close>

text \<open>
  C10. The code at two inputs that fit the budget with room to spare. A system message
  followed by a user and an assistant message comes back with the system message last,
  not first: the result is not in the order of the input. A single user message comes
  back as no message at all: the first message is dropped whenever it is not a system
  message.
\<close>

theorem processLargeContext_reorders_and_drops:
  "processLargeContext
     [\<lparr>role = System, content = js ''Be brief.''\<rparr>, \<lparr>role = User, content = js ''hi''\<rparr>,
      \<lparr>role = Assistant, content = js ''hello''\<rparr>] 1000
   = [\<lparr>role = User, content = js ''hi''\<rparr>, \<lparr>role = Assistant, content = js ''hello''\<rparr>,
      \<lparr>role = System, content = js ''Be brief.''\<rparr>] \<and>
   processLargeContext [\<lparr>role = User, content = js ''hi''\<rparr>] 1000 = []"
  by (simp add: processLargeContext_def leadingSystem_def estimateTokens_def)

subsection \<open>The prompt resolver\<close>

lemma get_substitution_plain:
  "36 \<notin> set t \<Longrightarrow> get_substitution matched pre post t = t"
  by (induction matched pre post t rule: get_substitution.induct) auto

lemma createPrompt_interpolated:
  "36 \<notin> set text \<Longrightarrow>
   createPrompt text lang cp = interpolated text (userPrompt (getPromptConfig lang cp))"
  by (simp add: createPrompt_def js_replace_def interpolated_def get_substitution_plain
      split: option.splits)

lemma split_first_sound:
  "split_first pat s = Some (b, a) \<Longrightarrow> s = b @ pat @ a"
proof (induction s arbitrary: b)
  case Nil
  then show ?case by (simp split: if_splits)
next
  case (Cons c s)
  show ?case
  proof (cases "take (length pat) (c # s) = pat")
    case True
    with Cons.prems have "b = []" "a = drop (length pat) (c # s)" by simp_all
    with True show ?thesis by (metis append_Nil append_take_drop_id)
  next
    case False
    with Cons.prems obtain b' where "split_first pat s = Some (b', a)" "b = c # b'"
      by (auto split: option.splits)
    with Cons.IH show ?thesis by simp
  qed
qed

lemma default_template_interpolated:
  "interpolated t (userPrompt (DEFAULT_PROMPTS l)) =
     take (length (userPrompt (DEFAULT_PROMPTS l)) - 6) (userPrompt (DEFAULT_PROMPTS l)) @ t"
  by (cases l) (simp_all add: interpolated_def DEFAULT_PROMPTS_def)

lemma default_template_placeholder:
  "drop (length (userPrompt (DEFAULT_PROMPTS l)) - 6) (userPrompt (DEFAULT_PROMPTS l)) = js ''{text}''"
  by (cases l) (simp_all add: DEFAULT_PROMPTS_def)

text \<open>
  Where the text has no dollar sign the resolver does what the specification says. A raw
  text becomes a user message (after a system message, for the OpenAI, OpenRouter and
  Portkey adapters) whose content is the user template with the text in the place of the
  first \<open>{text}\<close>; a message sequence is passed on unchanged; without custom templates, or
  without one for the language asked for, the built-in template of the language is used,
  with temperature 0.5 and 1000 tokens.
\<close>

lemma resolver_without_dollar:
  "36 \<notin> set t \<Longrightarrow>
   textToChatMessages t lang cp =
     [\<lparr> role = User,
        content = interpolated t (userPrompt (getPromptConfig (orChinese lang) cp)) \<rparr>] \<and>
   adapterMessages p (Text t) l cp =
     (if p = Claude then []
      else [\<lparr> role = System, content = systemPrompt (getPromptConfig l cp) \<rparr>])
     @ [\<lparr> role = User, content = interpolated t (userPrompt (getPromptConfig l cp)) \<rparr>]"
  by (cases p) (simp_all add: textToChatMessages_def adapterMessages_def createPrompt_interpolated)

lemma resolver_passes_messages: "adapterMessages p (Messages ms) l cp = ms"
  by (simp add: adapterMessages_def)

lemma resolver_defaults:
  "getPromptConfig l None = DEFAULT_PROMPTS l"
  "customEntry c l = None \<Longrightarrow> getPromptConfig l (Some c) = DEFAULT_PROMPTS l"
  "temperature (DEFAULT_PROMPTS l) = 0.5"
  "maxTokens (DEFAULT_PROMPTS l) = 1000"
  by (cases l; simp add: getPromptConfig_def DEFAULT_PROMPTS_def)+

text \<open>
  C7. The code at a text with two dollar signs in a row: \<open>String.prototype.replace\<close>
  reads \<open>$$\<close> in the replacement as one dollar sign, so the user message holds
  \<open>Save $ now\<close> where the template with the text interpolated has \<open>Save $$ now\<close>.
\<close>

theorem textToChatMessages_rewrites_dollars:
  "textToChatMessages (js ''Save $$ now'') (Some English) None =
     [\<lparr> role = User,
        content = js ''Please provide a concise, well-structured summary of this webpage content, highlighting the main points and key information:''
                  @ [10, 10] @ js ''Save $ now'' \<rparr>] \<and>
   interpolated (js ''Save $$ now'') (userPrompt (getPromptConfig English None)) =
     js ''Please provide a concise, well-structured summary of this webpage content, highlighting the main points and key information:''
     @ [10, 10] @ js ''Save $$ now''"
  by (simp add: textToChatMessages_def createPrompt_def getPromptConfig_def orChinese_def
      js_replace_def interpolated_def DEFAULT_PROMPTS_def)

subsection \<open>The message listener\<close>

text \<open>
  C8. A boundary message whose action tag is none of the eleven known actions is answered
  with the error response \<open>Unknown action\<close>; the state does not change.
\<close>

theorem unknown_action_answered_with_error:
  "action m \<notin> set knownActions \<Longrightarrow>
   onMessage net env m w = (Some (ErrorResponse (js ''Unknown action'')), w)"
  by (simp add: onMessage_def knownActions_def)

theorem unknown_action_answered_with_error_witness:
  "js ''frobnicate'' \<notin> set knownActions \<and>
   onMessage refusing
     \<lparr> tabs = [], pageText = (\<lambda>t. []), windowOpens = True, storageSize = 0, random = js ''x'' \<rparr>
     \<lparr> action = js ''frobnicate'', msg_tabId = None, msg_requestId = None, msg_url = None,
       msg_forceFresh = None, msg_text = [],
       msg_data = \<lparr> apiKey = [], apiUrl = None, virtualKey = None, modelIdentifier = None,
                    language = None, customPrompts = None, messages = [], provider = [],
                    url = None, forceFresh = None, tabId = None \<rparr> \<rparr>
     sampleWorld
   = (Some (ErrorResponse (js ''Unknown action'')), sampleWorld)"
proof -
  have unknown: "action \<lparr> action = js ''frobnicate'', msg_tabId = None, msg_requestId = None, msg_url = None,
       msg_forceFresh = None, msg_text = [],
       msg_data = \<lparr> apiKey = [], apiUrl = None, virtualKey = None, modelIdentifier = None,
                    language = None, customPrompts = None, messages = [], provider = [],
                    url = None, forceFresh = None, tabId = None \<rparr> \<rparr> \<notin> set knownActions"
    by (simp add: knownActions_def)
  have "js ''frobnicate'' \<notin> set knownActions"
    by (simp add: knownActions_def)
  with unknown_action_answered_with_error [OF unknown] show ?thesis by simp
qed

subsection \<open>Adapters and failure responses\<close>

lemma readResponse_not_ok:
  "\<not> ok st \<Longrightarrow>
   readResponse failed tip networkError (Responded st stText body) =
     Inl (failed @ js '' ('' @ show_nat st @ js '' '' @ stText @ js ''): '' @ errorDetails body @ tip st)"
  by (simp add: readResponse_def)

lemma errorDetails_nonempty: "errorDetails body \<noteq> []"
  by (cases body) (auto simp: errorDetails_def orElse_def split: option.splits)

text \<open>
  C6, as amended. For a response whose status is not in 200 to 299, \<open>callAPI\<close> of an
  initialised adapter (for Portkey: after its SDK call has failed) throws an error; it
  does not return a result. The message of the error is readable text: the fixed words
  of the adapter (\<open>Claude API request failed\<close>, \<open>OpenAI API request failed\<close>, for
  OpenRouter \<open>API request failed\<close>, for Portkey \<open>Portkey API request failed\<close> twice, the
  second after a colon), the status code and status text in parentheses, the provider's
  error details (or \<open>Unknown error\<close>, never empty), and for some status codes a hint.
\<close>

theorem adapters_throw_on_failure_status:
  "validateConfig cfg = Inr c \<Longrightarrow> \<not> ok st \<Longrightarrow>
   answer (requestBody p c x l cp) = (sdk, Responded st stText body) \<Longrightarrow>
   (p = Portkey \<longrightarrow> sdk = SdkThrows) \<Longrightarrow>
   callAPI p cfg answer x l cp =
     Inl (failurePrefix p @ js '' ('' @ show_nat st @ js '' '' @ stText @ js ''): ''
          @ errorDetails body @ statusTip p st) \<and>
   errorDetails body \<noteq> []"
proof (intro conjI)
  assume v: "validateConfig cfg = Inr c" and bad: "\<not> ok st"
    and a: "answer (requestBody p c x l cp) = (sdk, Responded st stText body)"
    and s: "p = Portkey \<longrightarrow> sdk = SdkThrows"
  show "callAPI p cfg answer x l cp =
     Inl (failurePrefix p @ js '' ('' @ show_nat st @ js '' '' @ stText @ js ''): ''
          @ errorDetails body @ statusTip p st)"
  proof (cases p)
    case Claude
    with v a show ?thesis
      by (simp add: callAPI_def claude_callAPI_def readResponse_not_ok [OF bad]
          failurePrefix_def statusTip_def)
  next
    case OpenAI
    with v a show ?thesis
      by (simp add: callAPI_def openai_callAPI_def readResponse_not_ok [OF bad]
          failurePrefix_def statusTip_def)
  next
    case OpenRouter
    with v a show ?thesis
      by (simp add: callAPI_def openrouter_callAPI_def readResponse_not_ok [OF bad]
          failurePrefix_def statusTip_def)
  next
    case Portkey
    with v a s show ?thesis
      by (simp add: callAPI_def portkey_callAPI_def callDirectChatAPI_def
          readResponse_not_ok [OF bad] failurePrefix_def statusTip_def)
  qed
  show "errorDetails body \<noteq> []" by (rule errorDetails_nonempty)
qed

lemma show429: "show_nat 429 = js ''429''" by (simp add: show_nat.simps)

theorem adapters_throw_on_failure_status_witness:
  "validateConfig (Some sampleConfig) = Inr sampleConfig \<and> \<not> ok 429 \<and>
   callAPI OpenAI (Some sampleConfig) (refusing 0)
     (Messages [\<lparr> role = User, content = js ''hi'' \<rparr>]) English None =
     Inl (js ''OpenAI API request failed (429 Too Many Requests): Rate limit reached''
          @ [10, 10]
          @ js ''Tip: Rate limit exceeded. Please wait before trying again or check your usage limits.'')"
proof -
  have v: "validateConfig (Some sampleConfig) = Inr sampleConfig"
    by (simp add: validateConfig_def sampleConfig_def)
  have bad: "\<not> ok 429" by (simp add: ok_def)
  have a: "refusing 0 (requestBody OpenAI sampleConfig (Messages [\<lparr> role = User, content = js ''hi'' \<rparr>]) English None)
      = (SdkThrows, Responded 429 (js ''Too Many Requests'') (Json (Some (js ''Rate limit reached'')) None None))"
    by (simp add: refusing_def)
  have s: "OpenAI = Portkey \<longrightarrow> SdkThrows = SdkThrows" by simp
  from adapters_throw_on_failure_status [where answer = "refusing 0" and p = OpenAI, OF v bad a s] v bad
  show ?thesis
    by (simp add: failurePrefix_def statusTip_def openaiTip_def errorDetails_def orElse_def show429)
qed

text \<open>
  The claim as stated fails for the OpenAI adapter and a response with status 429:
  \<open>callAPI\<close> throws.
\<close>

theorem adapter_counterexample:
  "openai_callAPI (Some sampleConfig) (refusing 0)
     (Messages [\<lparr> role = User, content = js ''hi'' \<rparr>]) English None =
     Inl (js ''OpenAI API request failed (429 Too Many Requests): Rate limit reached''
          @ [10, 10]
          @ js ''Tip: Rate limit exceeded. Please wait before trying again or check your usage limits.'')"
  by (simp add: openai_callAPI_def validateConfig_def sampleConfig_def refusing_def
      readResponse_def ok_def errorDetails_def orElse_def openaiTip_def show429)

subsection \<open>The orchestrator\<close>

lemma adapterCall_effect:
  "snd (adapterCall net p c lang cp w) =
     w\<lparr> providerCalls := providerCalls w @ [(p, c, fst (adapterCall net p c lang cp w))] \<rparr>"
  by (simp add: adapterCall_def Let_def)

lemma processChunks_effect:
  "\<exists>evs. snd (processChunks net lang cp i chunks pc cs w) =
           w\<lparr> providerCalls := providerCalls w @ evs \<rparr>"
proof (induction chunks arbitrary: i pc cs w)
  case Nil
  show ?case by (rule exI [of _ "[]"]) simp
next
  case (Cons chunk rest)
  define pre where "pre = (if i > 0 \<and> length pc > 0
            then (case adapterCall net Portkey (CallAPI (Text pc)) lang cp w of
                    (Inr summaryResponse, w1) \<Rightarrow> (summary summaryResponse, w1)
                  | (Inl e, w1) \<Rightarrow> (cs, w1))
            else (cs, w))"
  obtain cs' w1 where pre: "pre = (cs', w1)" by (cases pre)
  have w1: "\<exists>evs1. w1 = w\<lparr> providerCalls := providerCalls w @ evs1 \<rparr>"
  proof (cases "i > 0 \<and> length pc > 0")
    case True
    then have "w1 = snd (adapterCall net Portkey (CallAPI (Text pc)) lang cp w)"
      using pre unfolding pre_def by (auto split: prod.splits sum.splits)
    then show ?thesis using adapterCall_effect by metis
  next
    case False
    then have "w1 = w" using pre unfolding pre_def by auto
    then show ?thesis by (intro exI [of _ "[]"]) simp
  qed
  then obtain evs1 where evs1: "w1 = w\<lparr> providerCalls := providerCalls w @ evs1 \<rparr>" by blast
  define arg where "arg = CallLargeContextAPI (integrateSummaryWithChunk chunk cs' lang)"
  obtain r w2 where call: "adapterCall net Portkey arg lang cp w1 = (r, w2)"
    by (cases "adapterCall net Portkey arg lang cp w1")
  have w2: "w2 = w\<lparr> providerCalls := providerCalls w @ evs1 @ [(Portkey, arg, r)] \<rparr>"
    using adapterCall_effect [of net Portkey arg lang cp w1] call evs1 by simp
  have unfold: "processChunks net lang cp i (chunk # rest) pc cs w =
     (case r of Inl e \<Rightarrow> (Inl e, w2)
      | Inr response \<Rightarrow> if rest = [] then (Inr response, w2)
          else processChunks net lang cp (Suc i) rest (pc @ renderChunk chunk) cs' w2)"
    using pre call unfolding pre_def arg_def by (simp split: sum.splits)
  show ?case
  proof (cases r)
    case (Inl e)
    then show ?thesis unfolding unfold using w2 by auto
  next
    case (Inr response)
    show ?thesis
    proof (cases "rest = []")
      case True
      then show ?thesis unfolding unfold using w2 Inr by auto
    next
      case False
      from Cons.IH [of "Suc i" "pc @ renderChunk chunk" cs' w2]
      obtain evs where "snd (processChunks net lang cp (Suc i) rest (pc @ renderChunk chunk) cs' w2) =
           w2\<lparr> providerCalls := providerCalls w2 @ evs \<rparr>" by blast
      then show ?thesis unfolding unfold using w2 Inr False
        by (intro exI [of _ "evs1 @ [(Portkey, arg, r)] @ evs"]) simp
    qed
  qed
qed

lemma handle_effect:
  "\<exists>evs. snd (handleExtremelyLargeContext net msgs config lang cp w) =
           (initialize Portkey config w)\<lparr> providerCalls := providerCalls w @ evs \<rparr>"
proof (cases "estimatedTokens msgs < 100000")
  case True
  then show ?thesis
    using adapterCall_effect [of net Portkey "CallLargeContextAPI msgs" lang cp "initialize Portkey config w"]
    by (auto simp: handleExtremelyLargeContext_def Let_def initialize_def)
next
  case False
  then show ?thesis
    using processChunks_effect [of net lang cp 0 "chunkLargeContext msgs" "[]" "[]" "initialize Portkey config w"]
    by (auto simp: handleExtremelyLargeContext_def Let_def initialize_def)
qed


lemma SummaryCache_get_entry:
  "SummaryCache_get w u lang = Some s \<Longrightarrow>
   \<exists>e. getCacheEntry w u lang = Some e \<and> map_of (summary_cache w) (cacheKey u lang) = Some e \<and>
       cachedSummary e = s"
  by (auto simp: SummaryCache_get_def getCacheEntry_def split: if_splits option.splits)

text \<open>
  C9. On a cache hit (the request has a content key, does not force a refresh, is a
  single user message, and the cache returns a summary that is not empty) the response
  carries the cached summary, \<open>fromCache\<close> true and as \<open>cachedAt\<close> the timestamp of the
  stored entry; the state is left as it was, so no adapter is initialised and none is
  called.
\<close>

theorem cache_hit_answers_from_cache:
  "truthy (url request) \<Longrightarrow> forceFresh request \<noteq> Some True \<Longrightarrow>
   isTextSummarization (messages request) \<Longrightarrow>
   SummaryCache_get w (orElse (url request) []) (orChinese (language request)) = Some s \<Longrightarrow>
   s \<noteq> [] \<Longrightarrow>
   \<exists>e. map_of (summary_cache w)
          (cacheKey (orElse (url request) []) (orChinese (language request))) = Some e \<and>
       cachedSummary e = s \<and>
       callLLMAPI net request w =
         (Inr \<lparr> summary = s, error = None, fromCache = Some True,
                 cachedAt = Some (timestamp e) \<rparr>, w) \<and>
       providerCalls (snd (callLLMAPI net request w)) = providerCalls w \<and>
       apiProviders (snd (callLLMAPI net request w)) = apiProviders w"
proof -
  assume u: "truthy (url request)" and f: "forceFresh request \<noteq> Some True"
    and m: "isTextSummarization (messages request)"
    and g: "SummaryCache_get w (orElse (url request) []) (orChinese (language request)) = Some s"
    and s: "s \<noteq> []"
  from SummaryCache_get_entry [OF g] obtain e
    where e: "getCacheEntry w (orElse (url request) []) (orChinese (language request)) = Some e"
      "map_of (summary_cache w) (cacheKey (orElse (url request) []) (orChinese (language request))) = Some e"
      "cachedSummary e = s"
    by blast
  have "callLLMAPI_try net request w =
         (Inr \<lparr> summary = s, error = None, fromCache = Some True,
                 cachedAt = Some (timestamp e) \<rparr>, w)"
    using u f m g s e(1) by (simp add: callLLMAPI_try_def Let_def orElse_def)
  then have "callLLMAPI net request w =
         (Inr \<lparr> summary = s, error = None, fromCache = Some True,
                 cachedAt = Some (timestamp e) \<rparr>, w)"
    by (simp add: callLLMAPI_def)
  with e show ?thesis by simp
qed

lemma callLLMAPI_resolves: "\<exists>r. fst (callLLMAPI net request w) = Inr r"
  by (auto simp: callLLMAPI_def split: prod.splits sum.splits)

lemma readResponse_Inr:
  "readResponse failed tip networkError out = Inr r \<Longrightarrow> summary r \<noteq> [] \<and> error r = None"
  by (auto simp: readResponse_def plainResponse_def orElse_def
      split: fetch_outcome.splits if_splits payload.splits option.splits)

lemma callAPI_Inr:
  "callAPI p cfg answer x l cp = Inr r \<Longrightarrow> summary r \<noteq> [] \<and> error r = None"
proof (cases p)
  case Claude
  then show "callAPI p cfg answer x l cp = Inr r \<Longrightarrow> ?thesis"
    by (auto simp: callAPI_def claude_callAPI_def split: sum.splits dest: readResponse_Inr)
next
  case OpenAI
  then show "callAPI p cfg answer x l cp = Inr r \<Longrightarrow> ?thesis"
    by (auto simp: callAPI_def openai_callAPI_def split: sum.splits dest: readResponse_Inr)
next
  case OpenRouter
  then show "callAPI p cfg answer x l cp = Inr r \<Longrightarrow> ?thesis"
    by (auto simp: callAPI_def openrouter_callAPI_def split: sum.splits dest: readResponse_Inr)
next
  case Portkey
  then show "callAPI p cfg answer x l cp = Inr r \<Longrightarrow> ?thesis"
    by (auto simp: callAPI_def portkey_callAPI_def callDirectChatAPI_def plainResponse_def orElse_def
        split: sum.splits sdk_outcome.splits option.splits if_splits dest: readResponse_Inr)
qed

lemma afterContext_simps [simp]:
  "providerCalls (afterContext request w) = providerCalls w"
  "cacheSetCalls (afterContext request w) = cacheSetCalls w"
  "apiProviders (afterContext request w) = apiProviders w"
  by (simp_all add: afterContext_def split: option.splits)

lemma initialize_simps [simp]:
  "cacheSetCalls (initialize p config w) = cacheSetCalls w"
  "apiProviders (initialize p config w) p = Some config"
  by (simp_all add: initialize_def)

lemma callLLMAPI_try_miss:
  "\<not> cacheHit request w \<Longrightarrow>
   callLLMAPI_try net request w =
     (case getApiProvider (provider request) of
        Inl e \<Rightarrow> (Inl e, afterContext request w)
      | Inr p \<Rightarrow>
          (if provider request = js ''portkey''
           then (if estimatedTokens (messages request) > 100000
                 then handleExtremelyLargeContext net (messages request) (requestConfig request)
                        (orChinese (language request)) (customPrompts request)
                        (initialize p (requestConfig request) (afterContext request w))
                 else adapterCall net p (CallLargeContextAPI (messages request))
                        (orChinese (language request)) (customPrompts request)
                        (initialize p (requestConfig request) (afterContext request w)))
           else (case adapterCall net p (CallAPI (Messages (messages request)))
                        (orChinese (language request)) (customPrompts request)
                        (initialize p (requestConfig request) (afterContext request w)) of
                   (Inl e, w3) \<Rightarrow> (Inl e, w3)
                 | (Inr apiResponse, w3) \<Rightarrow>
                     (Inr apiResponse,
                      if truthy (url request) \<and> summary apiResponse \<noteq> []
                         \<and> \<not> truthy (error apiResponse) \<and> isTextSummarization (messages request)
                      then SummaryCache_set w3 (orElse (url request) []) (orChinese (language request))
                             (summary apiResponse) (provider request)
                      else w3))))"
proof -
  assume "\<not> cacheHit request w"
  then have "\<not> truthy (if truthy (url request) \<and> forceFresh request \<noteq> Some True \<and>
                         isTextSummarization (messages request)
                      then SummaryCache_get w (orElse (url request) []) (orChinese (language request))
                      else None)"
    by (auto simp: cacheHit_def)
  then show ?thesis
    unfolding callLLMAPI_try_def Let_def afterContext_def
    by (simp only: if_False)
qed

lemma callLLMAPI_try_hit:
  "cacheHit request w \<Longrightarrow> snd (callLLMAPI_try net request w) = w"
proof -
  assume "cacheHit request w"
  then have "truthy (if truthy (url request) \<and> forceFresh request \<noteq> Some True \<and>
                         isTextSummarization (messages request)
                      then SummaryCache_get w (orElse (url request) []) (orChinese (language request))
                      else None)"
    by (auto simp: cacheHit_def)
  then show ?thesis
    unfolding callLLMAPI_try_def Let_def
    by (simp only: if_True snd_conv)
qed

lemma snd_callLLMAPI: "snd (callLLMAPI net request w) = snd (callLLMAPI_try net request w)"
  by (simp add: callLLMAPI_def split: prod.splits sum.splits)

lemma fst_callLLMAPI_Inr:
  "fst (callLLMAPI_try net request w) = Inr r \<Longrightarrow> fst (callLLMAPI net request w) = Inr r"
  by (cases "callLLMAPI_try net request w") (auto simp: callLLMAPI_def)

lemma lookupProvider_portkey:
  "lookupProvider name = Some p \<Longrightarrow> (name = js ''portkey'') = (p = Portkey)"
  by (auto simp: lookupProvider_def split: if_splits)

lemma cacheSetCalls_SummaryCache_set:
  "cacheSetCalls (SummaryCache_set w u lang s prov) = cacheSetCalls w @ [(u, lang, s, prov)]"
  by (simp add: SummaryCache_set_def Let_def)

text \<open>What a request adds to the history of cache writes.\<close>

lemma cache_writes_of_request:
  "cacheSetCalls (snd (callLLMAPI net request w)) =
     (case lookupProvider (provider request) of
        None \<Rightarrow> cacheSetCalls w
      | Some p \<Rightarrow>
          (case callAPI p (Some (requestConfig request)) (net (length (providerCalls w)))
                  (Messages (messages request)) (orChinese (language request))
                  (customPrompts request) of
             Inl e \<Rightarrow> cacheSetCalls w
           | Inr r \<Rightarrow>
               if \<not> cacheHit request w \<and> p \<noteq> Portkey \<and> truthy (url request) \<and>
                  isTextSummarization (messages request)
               then cacheSetCalls w @
                      [(orElse (url request) [], orChinese (language request), summary r,
                        provider request)]
               else cacheSetCalls w))"
proof (cases "cacheHit request w")
  case True
  then show ?thesis
    by (simp add: snd_callLLMAPI callLLMAPI_try_hit split: option.splits sum.splits)
next
  case False
  note miss = callLLMAPI_try_miss [OF False, of net]
  show ?thesis
  proof (cases "lookupProvider (provider request)")
    case None
    then show ?thesis
      by (simp add: snd_callLLMAPI miss getApiProvider_def)
  next
    case (Some p)
    define w2 where "w2 = initialize p (requestConfig request) (afterContext request w)"
    have w2: "providerCalls w2 = providerCalls w" "cacheSetCalls w2 = cacheSetCalls w"
      "apiProviders w2 p = Some (requestConfig request)"
      by (simp_all add: w2_def)
    show ?thesis
    proof (cases "p = Portkey")
      case True
      then have pk: "provider request = js ''portkey''"
        using lookupProvider_portkey [OF Some] by simp
      have "cacheSetCalls (snd (callLLMAPI_try net request w)) = cacheSetCalls w"
      proof (cases "estimatedTokens (messages request) > 100000")
        case big: True
        obtain evs where "snd (handleExtremelyLargeContext net (messages request) (requestConfig request)
                        (orChinese (language request)) (customPrompts request) w2) =
           (initialize Portkey (requestConfig request) w2)\<lparr> providerCalls := providerCalls w2 @ evs \<rparr>"
          using handle_effect by blast
        then show ?thesis
          using big pk Some w2 by (simp add: miss getApiProvider_def w2_def [symmetric])
      next
        case small: False
        then show ?thesis
          using pk Some w2
          by (simp add: miss getApiProvider_def w2_def [symmetric] adapterCall_effect)
      qed
      then show ?thesis using Some True
        by (simp add: snd_callLLMAPI split: sum.splits)
    next
      case False
      then have npk: "provider request \<noteq> js ''portkey''"
        using lookupProvider_portkey [OF Some] by simp
      define r where "r = callAPI p (Some (requestConfig request)) (net (length (providerCalls w)))
                  (Messages (messages request)) (orChinese (language request))
                  (customPrompts request)"
      have call: "adapterCall net p (CallAPI (Messages (messages request)))
                        (orChinese (language request)) (customPrompts request) w2 =
          (r, w2\<lparr> providerCalls := providerCalls w2 @ [(p, CallAPI (Messages (messages request)), r)] \<rparr>)"
        by (simp add: adapterCall_def Let_def w2 r_def)
      show ?thesis
      proof (cases r)
        case (Inl e)
        then show ?thesis
          using Some npk call w2 \<open>\<not> cacheHit request w\<close>
          by (simp add: snd_callLLMAPI miss getApiProvider_def w2_def [symmetric] r_def [symmetric])
      next
        case (Inr resp)
        then have ok: "summary resp \<noteq> [] \<and> error resp = None"
          using callAPI_Inr [of p "Some (requestConfig request)" "net (length (providerCalls w))"
              "Messages (messages request)" "orChinese (language request)" "customPrompts request" resp]
          by (simp add: r_def)
        show ?thesis
          using Some npk call w2 Inr ok False \<open>\<not> cacheHit request w\<close>
          by (simp add: snd_callLLMAPI miss getApiProvider_def w2_def [symmetric] r_def [symmetric]
              cacheSetCalls_SummaryCache_set)
      qed
    qed
  qed
qed

lemma response_of_request:
  "\<not> cacheHit request w \<Longrightarrow> lookupProvider (provider request) = Some p \<Longrightarrow> p \<noteq> Portkey \<Longrightarrow>
   callAPI p (Some (requestConfig request)) (net (length (providerCalls w)))
     (Messages (messages request)) (orChinese (language request)) (customPrompts request) = Inr r \<Longrightarrow>
   fst (callLLMAPI net request w) = Inr r"
proof -
  assume miss: "\<not> cacheHit request w" and p: "lookupProvider (provider request) = Some p"
    and np: "p \<noteq> Portkey"
    and r: "callAPI p (Some (requestConfig request)) (net (length (providerCalls w)))
     (Messages (messages request)) (orChinese (language request)) (customPrompts request) = Inr r"
  have npk: "provider request \<noteq> js ''portkey''"
    using lookupProvider_portkey [OF p] np by simp
  obtain w3 where "adapterCall net p (CallAPI (Messages (messages request)))
                        (orChinese (language request)) (customPrompts request)
                        (initialize p (requestConfig request) (afterContext request w)) = (Inr r, w3)"
    using r by (simp add: adapterCall_def Let_def)
  then have "fst (callLLMAPI_try net request w) = Inr r"
    using p npk
    by (simp add: callLLMAPI_try_miss [OF miss] getApiProvider_def)
  then show ?thesis by (rule fst_callLLMAPI_Inr)
qed

text \<open>
  C1, as amended. \<open>callLLMAPI\<close> calls \<open>SummaryCache.set\<close> only if the request carries a
  content key that is not empty, its messages are exactly one user message, and the
  adapter call returned a summary (not empty, without error), which is then the response
  and the summary written. For a provider other than Portkey these conditions are also
  sufficient whenever the request is not answered from the cache; a forced refresh does
  not prevent the write. A request that is not a single user message never causes a
  write.
\<close>

theorem cache_written_for_summaries_only:
  "(cacheSetCalls (snd (callLLMAPI net request w)) \<noteq> cacheSetCalls w \<longrightarrow>
      truthy (url request) \<and> isTextSummarization (messages request) \<and>
      (\<exists>p r. lookupProvider (provider request) = Some p \<and>
             callAPI p (Some (requestConfig request)) (net (length (providerCalls w)))
               (Messages (messages request)) (orChinese (language request))
               (customPrompts request) = Inr r \<and>
             summary r \<noteq> [] \<and> error r = None \<and>
             fst (callLLMAPI net request w) = Inr r \<and>
             cacheSetCalls (snd (callLLMAPI net request w)) =
               cacheSetCalls w @
                 [(orElse (url request) [], orChinese (language request), summary r,
                   provider request)])) \<and>
   (truthy (url request) \<and> isTextSummarization (messages request) \<and> \<not> cacheHit request w \<and>
    lookupProvider (provider request) = Some q \<and> q \<noteq> Portkey \<and>
    callAPI q (Some (requestConfig request)) (net (length (providerCalls w)))
      (Messages (messages request)) (orChinese (language request)) (customPrompts request) = Inr s
    \<longrightarrow>
      cacheSetCalls (snd (callLLMAPI net request w)) =
        cacheSetCalls w @
          [(orElse (url request) [], orChinese (language request), summary s,
            provider request)]) \<and>
   (\<not> isTextSummarization (messages request) \<longrightarrow>
      cacheSetCalls (snd (callLLMAPI net request w)) = cacheSetCalls w)"
proof (intro conjI impI)
  assume changed: "cacheSetCalls (snd (callLLMAPI net request w)) \<noteq> cacheSetCalls w"
  note W = cache_writes_of_request [of net request w]
  from changed W obtain p where p: "lookupProvider (provider request) = Some p"
    by (cases "lookupProvider (provider request)") auto
  from changed W p obtain r where r: "callAPI p (Some (requestConfig request)) (net (length (providerCalls w)))
               (Messages (messages request)) (orChinese (language request))
               (customPrompts request) = Inr r"
    by (cases "callAPI p (Some (requestConfig request)) (net (length (providerCalls w)))
               (Messages (messages request)) (orChinese (language request))
               (customPrompts request)") auto
  from changed W p r have c: "\<not> cacheHit request w \<and> p \<noteq> Portkey \<and> truthy (url request) \<and>
                  isTextSummarization (messages request)"
    by (auto split: if_splits)
  with W p r have written: "cacheSetCalls (snd (callLLMAPI net request w)) =
               cacheSetCalls w @
                 [(orElse (url request) [], orChinese (language request), summary r,
                   provider request)]"
    by simp
  from c show "truthy (url request)" by simp
  from c show "isTextSummarization (messages request)" by simp
  have "fst (callLLMAPI net request w) = Inr r"
    using response_of_request [where net = net, OF _ p _ r] c by simp
  with p r callAPI_Inr [OF r] written
  show "\<exists>p r. lookupProvider (provider request) = Some p \<and>
             callAPI p (Some (requestConfig request)) (net (length (providerCalls w)))
               (Messages (messages request)) (orChinese (language request))
               (customPrompts request) = Inr r \<and>
             summary r \<noteq> [] \<and> error r = None \<and>
             fst (callLLMAPI net request w) = Inr r \<and>
             cacheSetCalls (snd (callLLMAPI net request w)) =
               cacheSetCalls w @
                 [(orElse (url request) [], orChinese (language request), summary r,
                   provider request)]"
    by blast
next
  assume "truthy (url request) \<and> isTextSummarization (messages request) \<and> \<not> cacheHit request w \<and>
    lookupProvider (provider request) = Some q \<and> q \<noteq> Portkey \<and>
    callAPI q (Some (requestConfig request)) (net (length (providerCalls w)))
      (Messages (messages request)) (orChinese (language request)) (customPrompts request) = Inr s"
  then show "cacheSetCalls (snd (callLLMAPI net request w)) =
        cacheSetCalls w @
          [(orElse (url request) [], orChinese (language request), summary s,
            provider request)]"
    using cache_writes_of_request [of net request w] by simp
next
  assume "\<not> isTextSummarization (messages request)"
  then show "cacheSetCalls (snd (callLLMAPI net request w)) = cacheSetCalls w"
    using cache_writes_of_request [of net request w]
    by (simp split: option.splits sum.splits)
qed

lemma sample_facts:
  "truthy (url sampleRequest)" "isTextSummarization (messages sampleRequest)"
  "lookupProvider (provider sampleRequest) = Some OpenAI"
  "orElse (url sampleRequest) [] = js ''https://example.com''"
  "orChinese (language sampleRequest) = English"
  "provider sampleRequest = js ''openai''"
  by (simp_all add: sampleRequest_def isTextSummarization_def lookupProvider_def orElse_def
      orChinese_def)

lemma sample_miss: "\<not> cacheHit sampleRequest sampleWorld"
  by (simp add: cacheHit_def SummaryCache_get_def sampleWorld_def)

lemma sample_call:
  "callAPI OpenAI (Some (requestConfig sampleRequest)) (answering (js ''done'') n)
      (Messages (messages sampleRequest)) (orChinese (language sampleRequest))
      (customPrompts sampleRequest) = Inr (plainResponse (js ''done''))"
  by (simp add: callAPI_def openai_callAPI_def validateConfig_def requestConfig_def
      sampleRequest_def answering_def readResponse_def ok_def orElse_def)

theorem cache_written_for_summaries_only_witness:
  "truthy (url sampleRequest) \<and> isTextSummarization (messages sampleRequest) \<and>
   \<not> cacheHit sampleRequest sampleWorld \<and>
   cacheSetCalls (snd (callLLMAPI (answering (js ''done'')) sampleRequest sampleWorld)) =
     [(js ''https://example.com'', English, js ''done'', js ''openai'')]"
proof -
  have "OpenAI \<noteq> Portkey" by simp
  with cache_written_for_summaries_only [of "answering (js ''done'')" sampleRequest sampleWorld
      OpenAI "plainResponse (js ''done'')"] sample_facts sample_miss sample_call
  have "cacheSetCalls (snd (callLLMAPI (answering (js ''done'')) sampleRequest sampleWorld)) =
        cacheSetCalls sampleWorld @
          [(orElse (url sampleRequest) [], orChinese (language sampleRequest),
            summary (plainResponse (js ''done'')), provider sampleRequest)]"
    by blast
  then show ?thesis
    using sample_facts sample_miss by (simp add: sampleWorld_def plainResponse_def)
qed

text \<open>
  The claim as stated fails for a forced refresh: the summary is written to the cache
  although \<open>forceFresh\<close> is set.
\<close>

theorem cache_write_counterexample:
  "forceFresh (sampleRequest\<lparr> forceFresh := Some True \<rparr>) = Some True \<and>
   cacheSetCalls (snd (callLLMAPI (answering (js ''done''))
                        (sampleRequest\<lparr> forceFresh := Some True \<rparr>) sampleWorld)) =
     [(js ''https://example.com'', English, js ''done'', js ''openai'')]"
proof -
  define req where "req = sampleRequest\<lparr> forceFresh := Some True \<rparr>"
  have miss: "\<not> cacheHit req sampleWorld"
    by (simp add: cacheHit_def req_def)
  have call: "callAPI OpenAI (Some (requestConfig req))
      (answering (js ''done'') (length (providerCalls sampleWorld)))
      (Messages (messages req)) (orChinese (language req)) (customPrompts req)
      = Inr (plainResponse (js ''done''))"
    by (simp add: callAPI_def openai_callAPI_def validateConfig_def requestConfig_def req_def
      sampleRequest_def answering_def readResponse_def ok_def orElse_def)
  have p: "lookupProvider (provider req) = Some OpenAI"
    by (simp add: req_def sampleRequest_def lookupProvider_def)
  have u: "truthy (url req)" "isTextSummarization (messages req)"
    "orElse (url req) [] = js ''https://example.com''" "orChinese (language req) = English"
    "provider req = js ''openai''" "forceFresh req = Some True"
    by (simp_all add: req_def sampleRequest_def isTextSummarization_def orElse_def orChinese_def)
  have "cacheSetCalls (snd (callLLMAPI (answering (js ''done'')) req sampleWorld)) =
     cacheSetCalls sampleWorld @
       [(orElse (url req) [], orChinese (language req), summary (plainResponse (js ''done'')),
         provider req)]"
    unfolding cache_writes_of_request p option.case call sum.case using miss u(1,2) by simp
  then have "cacheSetCalls (snd (callLLMAPI (answering (js ''done'')) req sampleWorld)) =
     [(js ''https://example.com'', English, js ''done'', js ''openai'')]"
    unfolding u by (simp add: sampleWorld_def plainResponse_def)
  with u(6) show ?thesis unfolding req_def by simp
qed

lemma failure_of_request:
  "\<not> cacheHit request w \<Longrightarrow> lookupProvider (provider request) = Some p \<Longrightarrow> p \<noteq> Portkey \<Longrightarrow>
   callAPI p (Some (requestConfig request)) (net (length (providerCalls w)))
     (Messages (messages request)) (orChinese (language request)) (customPrompts request) = Inl e \<Longrightarrow>
   fst (callLLMAPI net request w) =
     Inr \<lparr> summary = [], error = Some e, fromCache = None, cachedAt = None \<rparr>"
proof -
  assume miss: "\<not> cacheHit request w" and p: "lookupProvider (provider request) = Some p"
    and np: "p \<noteq> Portkey"
    and r: "callAPI p (Some (requestConfig request)) (net (length (providerCalls w)))
     (Messages (messages request)) (orChinese (language request)) (customPrompts request) = Inl e"
  have npk: "provider request \<noteq> js ''portkey''"
    using lookupProvider_portkey [OF p] np by simp
  obtain w3 where "adapterCall net p (CallAPI (Messages (messages request)))
                        (orChinese (language request)) (customPrompts request)
                        (initialize p (requestConfig request) (afterContext request w)) = (Inl e, w3)"
    using r by (simp add: adapterCall_def Let_def)
  then obtain w4 where "callLLMAPI_try net request w = (Inl e, w4)"
    using p npk
    by (simp add: callLLMAPI_try_miss [OF miss] getApiProvider_def)
  then show ?thesis by (simp add: callLLMAPI_def)
qed

lemma processLLMRequest_completes:
  "pendingRequests w rid = Some pr \<Longrightarrow>
   \<exists>r. fst (callLLMAPI net request
              (w\<lparr> pendingRequests := (pendingRequests w)(rid \<mapsto> pr\<lparr> status := Processing \<rparr>) \<rparr>))
          = Inr r \<and>
       pendingRequests (processLLMRequest net rid request w) rid =
         Some (pr\<lparr> status := Completed, result := Some r \<rparr>)"
proof -
  assume pr: "pendingRequests w rid = Some pr"
  define w1 where "w1 = w\<lparr> pendingRequests := (pendingRequests w)(rid \<mapsto> pr\<lparr> status := Processing \<rparr>) \<rparr>"
  obtain r where r: "fst (callLLMAPI net request w1) = Inr r"
    using callLLMAPI_resolves by blast
  then obtain w2 where "callLLMAPI net request w1 = (Inr r, w2)"
    by (cases "callLLMAPI net request w1") simp
  then have "pendingRequests (processLLMRequest net rid request w) rid =
         Some (pr\<lparr> status := Completed, result := Some r \<rparr>)"
    using pr by (simp add: processLLMRequest_def Let_def w1_def [symmetric])
  with r show ?thesis unfolding w1_def by blast
qed

text \<open>
  C5. The code at a request whose provider call is refused with status 429: the pending
  request ends in the status \<open>completed\<close>, with a result whose \<open>error\<close> field holds the
  message, and its own error message stays unset. The status \<open>error\<close> is not reached,
  because \<open>callLLMAPI\<close> turns every failure into a result.
\<close>

theorem failed_request_ends_completed:
  "pendingRequests
     (snd (startLLMRequest refusing (js ''abc'') sampleRequest (Some (js ''req_1'')) sampleWorld))
     (js ''req_1'') =
   Some \<lparr> requestId = js ''req_1'', tabUrl = js ''https://example.com'', status = Completed,
          result = Some \<lparr> summary = [],
                          error = Some (js ''OpenAI API request failed (429 Too Many Requests): Rate limit reached''
                                        @ [10, 10]
                                        @ js ''Tip: Rate limit exceeded. Please wait before trying again or check your usage limits.''),
                          fromCache = None, cachedAt = None \<rparr>,
          requestError = None, requestTimestamp = 1000 \<rparr>"
proof -
  define pr where "pr = \<lparr> requestId = js ''req_1'', tabUrl = js ''https://example.com'', status = Pending,
              result = None, requestError = None, requestTimestamp = 1000 \<rparr>"
  define w0 where "w0 = sampleWorld\<lparr> pendingRequests := (pendingRequests sampleWorld)(js ''req_1'' \<mapsto> pr) \<rparr>"
  define w1 where "w1 = w0\<lparr> pendingRequests := (pendingRequests w0)(js ''req_1'' \<mapsto> pr\<lparr> status := Processing \<rparr>) \<rparr>"
  have start: "snd (startLLMRequest refusing (js ''abc'') sampleRequest (Some (js ''req_1'')) sampleWorld)
      = processLLMRequest refusing (js ''req_1'') sampleRequest w0"
    by (simp add: startLLMRequest_def Let_def orElse_def w0_def pr_def sampleRequest_def
        sampleWorld_def)
  have reg: "pendingRequests w0 (js ''req_1'') = Some pr" by (simp add: w0_def)
  have miss: "\<not> cacheHit sampleRequest w1"
    by (simp add: cacheHit_def SummaryCache_get_def w1_def w0_def sampleWorld_def)
  have call: "callAPI OpenAI (Some (requestConfig sampleRequest)) (refusing (length (providerCalls w1)))
     (Messages (messages sampleRequest)) (orChinese (language sampleRequest)) (customPrompts sampleRequest)
     = Inl (js ''OpenAI API request failed (429 Too Many Requests): Rate limit reached''
                                        @ [10, 10]
                                        @ js ''Tip: Rate limit exceeded. Please wait before trying again or check your usage limits.'')"
    by (simp add: callAPI_def openai_callAPI_def validateConfig_def requestConfig_def
      sampleRequest_def refusing_def readResponse_def ok_def errorDetails_def orElse_def
      openaiTip_def show429)
  have "OpenAI \<noteq> Portkey" by simp
  from failure_of_request [where net = refusing, OF miss sample_facts(3) this call]
  have res: "fst (callLLMAPI refusing sampleRequest w1) =
     Inr \<lparr> summary = [], error = Some (js ''OpenAI API request failed (429 Too Many Requests): Rate limit reached''
                                        @ [10, 10]
                                        @ js ''Tip: Rate limit exceeded. Please wait before trying again or check your usage limits.''), fromCache = None, cachedAt = None \<rparr>" .
  from processLLMRequest_completes [OF reg, of refusing sampleRequest] res
  have "pendingRequests (processLLMRequest refusing (js ''req_1'') sampleRequest w0) (js ''req_1'') =
         Some (pr\<lparr> status := Completed, result := Some \<lparr> summary = [], error = Some (js ''OpenAI API request failed (429 Too Many Requests): Rate limit reached''
                                        @ [10, 10]
                                        @ js ''Tip: Rate limit exceeded. Please wait before trying again or check your usage limits.''), fromCache = None, cachedAt = None \<rparr> \<rparr>)"
    unfolding w1_def by auto
  then show ?thesis unfolding start by (simp add: pr_def)
qed

theorem cache_hit_answers_from_cache_witness:
  "truthy (url sampleRequest) \<and> forceFresh sampleRequest \<noteq> Some True \<and>
   isTextSummarization (messages sampleRequest) \<and>
   SummaryCache_get cachedWorld (js ''https://example.com'') English = Some (js ''A page.'') \<and>
   callLLMAPI refusing sampleRequest cachedWorld =
     (Inr \<lparr> summary = js ''A page.'', error = None, fromCache = Some True, cachedAt = Some 500 \<rparr>,
      cachedWorld)"
proof -
  have f: "forceFresh sampleRequest \<noteq> Some True" by (simp add: sampleRequest_def)
  have g: "SummaryCache_get cachedWorld (orElse (url sampleRequest) []) (orChinese (language sampleRequest))
     = Some (js ''A page.'')"
    by (simp add: sample_facts SummaryCache_get_def cachedWorld_def sampleWorld_def cacheKey_def
        languageName_def)
  have s: "js ''A page.'' \<noteq> []" by simp
  have e: "map_of (summary_cache cachedWorld)
          (cacheKey (orElse (url sampleRequest) []) (orChinese (language sampleRequest)))
       = Some \<lparr> cachedSummary = js ''A page.'', cachedProvider = js ''openai'', timestamp = 500 \<rparr>"
    by (simp add: sample_facts cachedWorld_def sampleWorld_def cacheKey_def languageName_def)
  from cache_hit_answers_from_cache [OF sample_facts(1) f sample_facts(2) g s, of refusing]
  have "callLLMAPI refusing sampleRequest cachedWorld =
     (Inr \<lparr> summary = js ''A page.'', error = None, fromCache = Some True, cachedAt = Some 500 \<rparr>,
      cachedWorld)"
    unfolding e by auto
  with sample_facts f g show ?thesis by simp
qed

subsection \<open>The chunked path\<close>

lemma isChunkCall_simps [simp]:
  "isChunkCall (p, CallLargeContextAPI msgs, r)"
  "\<not> isChunkCall (p, CallAPI x, r)"
  by (simp_all add: isChunkCall_def)

lemma outcome_simp [simp]: "outcome (p, c, r) = r"
  by (simp add: outcome_def)

lemma processChunks_run:
  "chunks \<noteq> [] \<Longrightarrow>
   \<exists>evs. processChunks net lang cp i chunks pc cs w =
           (outcome (last evs), w\<lparr> providerCalls := providerCalls w @ evs \<rparr>) \<and>
         evs \<noteq> [] \<and> isChunkCall (last evs) \<and>
         (\<forall>e\<in>set (butlast evs). isChunkCall e \<longrightarrow> (\<exists>r. outcome e = Inr r)) \<and>
         ((\<exists>r. outcome (last evs) = Inr r) \<longrightarrow> length (filter isChunkCall evs) = length chunks)"
proof (induction chunks arbitrary: i pc cs w)
  case Nil
  then show ?case by simp
next
  case (Cons chunk rest)
  define pre where "pre = (if i > 0 \<and> length pc > 0
            then (case adapterCall net Portkey (CallAPI (Text pc)) lang cp w of
                    (Inr summaryResponse, w1) \<Rightarrow> (summary summaryResponse, w1)
                  | (Inl e, w1) \<Rightarrow> (cs, w1))
            else (cs, w))"
  obtain cs' w1 where pre: "pre = (cs', w1)" by (cases pre)
  have "\<exists>evs1. w1 = w\<lparr> providerCalls := providerCalls w @ evs1 \<rparr> \<and> (\<forall>e\<in>set evs1. \<not> isChunkCall e)"
  proof (cases "i > 0 \<and> length pc > 0")
    case True
    then have "w1 = snd (adapterCall net Portkey (CallAPI (Text pc)) lang cp w)"
      using pre unfolding pre_def by (auto split: prod.splits sum.splits)
    then have "w1 = w\<lparr> providerCalls := providerCalls w @
        [(Portkey, CallAPI (Text pc), fst (adapterCall net Portkey (CallAPI (Text pc)) lang cp w))] \<rparr>"
      by (simp add: adapterCall_effect)
    then show ?thesis by (intro exI [of _ "[(Portkey, CallAPI (Text pc), fst (adapterCall net Portkey (CallAPI (Text pc)) lang cp w))]"]) simp
  next
    case False
    then have "w1 = w" using pre unfolding pre_def by auto
    then show ?thesis by (intro exI [of _ "[]"]) simp
  qed
  then obtain evs1 where evs1: "w1 = w\<lparr> providerCalls := providerCalls w @ evs1 \<rparr>"
    and syn: "\<forall>e\<in>set evs1. \<not> isChunkCall e" by blast
  define arg where "arg = CallLargeContextAPI (integrateSummaryWithChunk chunk cs' lang)"
  obtain r w2 where call: "adapterCall net Portkey arg lang cp w1 = (r, w2)"
    by (cases "adapterCall net Portkey arg lang cp w1")
  have w2: "w2 = w\<lparr> providerCalls := providerCalls w @ evs1 @ [(Portkey, arg, r)] \<rparr>"
    using adapterCall_effect [of net Portkey arg lang cp w1] call evs1 by simp
  have chunkEv: "isChunkCall (Portkey, arg, r)" by (simp add: arg_def)
  have unfold: "processChunks net lang cp i (chunk # rest) pc cs w =
     (case r of Inl e \<Rightarrow> (Inl e, w2)
      | Inr response \<Rightarrow> if rest = [] then (Inr response, w2)
          else processChunks net lang cp (Suc i) rest (pc @ renderChunk chunk) cs' w2)"
    using pre call unfolding pre_def arg_def by (simp split: sum.splits)
  have nosyn: "filter isChunkCall evs1 = []"
    using syn by (simp add: filter_empty_conv)
  have count1: "length (filter isChunkCall (evs1 @ [(Portkey, arg, r)])) = 1"
    using nosyn chunkEv by simp
  show ?case
  proof (cases "(\<exists>e. r = Inl e) \<or> rest = []")
    case True
    then have stop: "processChunks net lang cp i (chunk # rest) pc cs w = (r, w2)"
      unfolding unfold by (auto split: sum.splits)
    have "(\<exists>r'. r = Inr r') \<longrightarrow> rest = []" using True by auto
    then show ?thesis
      using stop w2 syn chunkEv count1
      by (intro exI [of _ "evs1 @ [(Portkey, arg, r)]"]) auto
  next
    case False
    then obtain response where r: "r = Inr response" and more: "rest \<noteq> []"
      by (cases r) auto
    from Cons.IH [OF more, of "Suc i" "pc @ renderChunk chunk" cs' w2]
    obtain evs where run: "processChunks net lang cp (Suc i) rest (pc @ renderChunk chunk) cs' w2 =
           (outcome (last evs), w2\<lparr> providerCalls := providerCalls w2 @ evs \<rparr>)"
      and ne: "evs \<noteq> []" and lastc: "isChunkCall (last evs)"
      and before: "\<forall>e\<in>set (butlast evs). isChunkCall e \<longrightarrow> (\<exists>r. outcome e = Inr r)"
      and count: "(\<exists>r. outcome (last evs) = Inr r) \<longrightarrow> length (filter isChunkCall evs) = length rest"
      by blast
    define all where "all = evs1 @ [(Portkey, arg, r)] @ evs"
    have a: "processChunks net lang cp i (chunk # rest) pc cs w =
           (outcome (last all), w\<lparr> providerCalls := providerCalls w @ all \<rparr>)"
      unfolding unfold using r more run w2 ne by (simp add: all_def)
    have b: "all \<noteq> [] \<and> isChunkCall (last all)" using ne lastc by (simp add: all_def)
    have bl: "butlast all = evs1 @ [(Portkey, arg, r)] @ butlast evs"
      using ne by (simp add: all_def butlast_append)
    have c: "\<forall>e\<in>set (butlast all). isChunkCall e \<longrightarrow> (\<exists>r. outcome e = Inr r)"
      unfolding bl using syn before r by auto
    have d: "(\<exists>r. outcome (last all) = Inr r) \<longrightarrow> length (filter isChunkCall all) = length (chunk # rest)"
    proof
      assume "\<exists>r. outcome (last all) = Inr r"
      then have "\<exists>r. outcome (last evs) = Inr r" using ne by (simp add: all_def)
      with count have "length (filter isChunkCall evs) = length rest" by blast
      moreover have "length (filter isChunkCall all) = 1 + length (filter isChunkCall evs)"
        using nosyn chunkEv by (simp add: all_def)
      ultimately show "length (filter isChunkCall all) = length (chunk # rest)" by simp
    qed
    from a b c d show ?thesis by blast
  qed
qed

lemma chunks_nonempty:
  "100000 \<le> estimatedTokens msgs \<Longrightarrow> chunkLargeContext msgs \<noteq> []"
proof
  assume big: "100000 \<le> estimatedTokens msgs" and e: "chunkLargeContext msgs = []"
  have "concat (chunkLargeContext msgs) = msgs" using chunkLargeContext_ok by blast
  with e have "msgs = []" by simp
  with big show False by (simp add: estimatedTokens_def)
qed

text \<open>
  C4, as amended. In the chunked path the calls made are never empty, the last of them
  is a chunk call, and its outcome is the outcome of the whole operation; every chunk
  call before the last returned. So a chunk call that fails is the last call made and its
  error is what the operation throws, and a result is returned only when as many chunk
  calls were made as there are chunks, as the response to the last of them: never the
  response to an earlier chunk.
\<close>

theorem failing_chunk_call_aborts:
  "100000 \<le> estimatedTokens msgs \<Longrightarrow>
   \<exists>evs. providerCalls (snd (handleExtremelyLargeContext net msgs config lang cp w)) =
           providerCalls w @ evs \<and>
         evs \<noteq> [] \<and> isChunkCall (last evs) \<and>
         fst (handleExtremelyLargeContext net msgs config lang cp w) = outcome (last evs) \<and>
         (\<forall>e\<in>set (butlast evs). isChunkCall e \<longrightarrow> (\<exists>r. outcome e = Inr r)) \<and>
         ((\<exists>r. fst (handleExtremelyLargeContext net msgs config lang cp w) = Inr r) \<longrightarrow>
            length (filter isChunkCall evs) = length (chunkLargeContext msgs))"
proof -
  assume big: "100000 \<le> estimatedTokens msgs"
  then have h: "handleExtremelyLargeContext net msgs config lang cp w =
      processChunks net lang cp 0 (chunkLargeContext msgs) [] [] (initialize Portkey config w)"
    by (simp add: handleExtremelyLargeContext_def Let_def)
  from processChunks_run [OF chunks_nonempty [OF big], of net lang cp 0 "[]" "[]" "initialize Portkey config w"]
  obtain evs where run: "processChunks net lang cp 0 (chunkLargeContext msgs) [] [] (initialize Portkey config w) =
           (outcome (last evs), (initialize Portkey config w)\<lparr> providerCalls := providerCalls (initialize Portkey config w) @ evs \<rparr>)"
      and rest: "evs \<noteq> []" "isChunkCall (last evs)"
        "\<forall>e\<in>set (butlast evs). isChunkCall e \<longrightarrow> (\<exists>r. outcome e = Inr r)"
        "(\<exists>r. outcome (last evs) = Inr r) \<longrightarrow> length (filter isChunkCall evs) = length (chunkLargeContext msgs)"
    by blast
  have "providerCalls (snd (handleExtremelyLargeContext net msgs config lang cp w)) = providerCalls w @ evs"
    unfolding h run by simp
  moreover have "fst (handleExtremelyLargeContext net msgs config lang cp w) = outcome (last evs)"
    unfolding h run by simp
  ultimately show ?thesis using rest by auto
qed

lemma sample_estimate: "estimatedTokens [sampleMessage User 200000, sampleMessage Assistant 200004] = 100001"
  by (simp add: estimatedTokens_def sampleMessage_def)

lemma sample_two_chunks:
  "chunkLargeContext [sampleMessage User 200000, sampleMessage Assistant 200004] =
     [[sampleMessage User 200000], [sampleMessage Assistant 200004]]"
  by (simp add: chunkLargeContext_def sampleMessage_def maxChunkSize_def)

lemma portkey_refused:
  "validateConfig cfg = Inr c \<Longrightarrow>
   portkey_callAPI cfg (refusing n) x lang cp =
     Inl (js ''Portkey API request failed: Portkey API request failed (429 Too Many Requests): Rate limit reached''
          @ [10, 10] @ js ''Tip: You have hit rate limits. Please wait before trying again.'')"
  by (simp add: portkey_callAPI_def refusing_def callDirectChatAPI_def readResponse_def ok_def
      errorDetails_def orElse_def portkeyTip_def show429)

lemma portkey_answered:
  "validateConfig cfg = Inr c \<Longrightarrow>
   portkey_callAPI cfg (answering s n) x lang cp = Inr (plainResponse (orElse (Some s) (js ''No response generated'')))"
  by (simp add: portkey_callAPI_def answering_def)

lemma rendered_nonempty: "renderChunk c \<noteq> []"
  by (simp add: renderChunk_def)

lemma sample_run_refused:
  "handleExtremelyLargeContext (refusingAt 2)
     [sampleMessage User 200000, sampleMessage Assistant 200004] sampleConfig English None sampleWorld
   = (Inl (js ''Portkey API request failed: Portkey API request failed (429 Too Many Requests): Rate limit reached''
          @ [10, 10] @ js ''Tip: You have hit rate limits. Please wait before trying again.''),
      (initialize Portkey sampleConfig sampleWorld)\<lparr> providerCalls :=
         [(Portkey, CallLargeContextAPI [sampleMessage User 200000], Inr (plainResponse (js ''done''))),
          (Portkey, CallAPI (Text (renderChunk [sampleMessage User 200000])), Inr (plainResponse (js ''done''))),
          (Portkey, CallLargeContextAPI (summaryMessage (js ''done'') English # [sampleMessage Assistant 200004]),
           Inl (js ''Portkey API request failed: Portkey API request failed (429 Too Many Requests): Rate limit reached''
          @ [10, 10] @ js ''Tip: You have hit rate limits. Please wait before trying again.''))] \<rparr>)"
proof -
  have v: "validateConfig (Some sampleConfig) = Inr sampleConfig"
    by (simp add: validateConfig_def sampleConfig_def)
  show ?thesis
    by (simp add: handleExtremelyLargeContext_def Let_def sample_estimate sample_two_chunks adapterCall_def
        initialize_def sampleWorld_def callAPI_def portkey_callLargeContextAPI_def
        refusingAt_def portkey_refused [OF v] portkey_answered [OF v] rendered_nonempty
        integrateSummaryWithChunk_def plainResponse_def orElse_def)
qed

lemma portkey_returns:
  "validateConfig cfg = Inr c \<Longrightarrow> \<forall>body. answers (answer body) \<Longrightarrow>
   \<exists>r. portkey_callAPI cfg answer x lang cp = Inr r"
proof -
  assume v: "validateConfig cfg = Inr c" and a: "\<forall>body. answers (answer body)"
  define out where "out = answer (requestBody Portkey c x lang cp)"
  have ans: "answers out" using a by (simp add: out_def)
  show ?thesis
  proof (cases "fst out")
    case SdkThrows
    with ans obtain st stText e m t where "snd out = Responded st stText (Json e m t)" "ok st"
      by (auto simp: answers_def split: fetch_outcome.splits payload.splits)
    with SdkThrows v show ?thesis
      by (simp add: portkey_callAPI_def out_def [symmetric] callDirectChatAPI_def readResponse_def)
  next
    case (SdkReturns t)
    with v show ?thesis
      by (simp add: portkey_callAPI_def out_def [symmetric])
  qed
qed

lemma chunk_call_returns:
  "validateConfig (apiProviders w Portkey) = Inr c \<Longrightarrow>
   \<forall>body. answers (net (length (providerCalls w)) body) \<Longrightarrow>
   \<exists>r. adapterCall net Portkey (CallLargeContextAPI ms) lang cp w =
         (Inr r, w\<lparr> providerCalls := providerCalls w @ [(Portkey, CallLargeContextAPI ms, Inr r)] \<rparr>)"
proof -
  assume v: "validateConfig (apiProviders w Portkey) = Inr c"
    and a: "\<forall>body. answers (net (length (providerCalls w)) body)"
  from portkey_returns [OF v a] obtain r where
    "portkey_callAPI (apiProviders w Portkey) (net (length (providerCalls w)))
       (Messages (processLargeContext ms (maxTokens (getPromptConfig lang cp)))) lang cp = Inr r"
    by blast
  then show ?thesis
    by (simp add: adapterCall_def Let_def portkey_callLargeContextAPI_def)
qed

lemma occursIn_iff: "occursIn pat s \<longleftrightarrow> (\<exists>pre post. s = pre @ pat @ post)"
proof
  assume "occursIn pat s"
  then obtain i where i: "i \<le> length s" "take (length pat) (drop i s) = pat"
    by (auto simp: occursIn_def)
  have "s = take i s @ take (length pat) (drop i s) @ drop (length pat) (drop i s)"
    by (simp only: append_take_drop_id)
  with i(2) have "s = take i s @ pat @ drop (length pat) (drop i s)" by simp
  then show "\<exists>pre post. s = pre @ pat @ post" by blast
next
  assume "\<exists>pre post. s = pre @ pat @ post"
  then obtain pre post where s: "s = pre @ pat @ post" by blast
  have "length pre \<in> {..length s}" by (simp add: s)
  moreover have "take (length pat) (drop (length pre) s) = pat" by (simp add: s)
  ultimately show "occursIn pat s" unfolding occursIn_def by blast
qed

lemma occursIn_append:
  "occursIn pat a \<Longrightarrow> occursIn pat (a @ b)"
  "occursIn pat b \<Longrightarrow> occursIn pat (a @ b)"
proof -
  assume "occursIn pat a"
  then obtain pre post where "a = pre @ pat @ post" by (auto simp: occursIn_iff)
  then have "a @ b = pre @ pat @ (post @ b)" by simp
  then show "occursIn pat (a @ b)" unfolding occursIn_iff by blast
next
  assume "occursIn pat b"
  then obtain pre post where "b = pre @ pat @ post" by (auto simp: occursIn_iff)
  then have "a @ b = (a @ pre) @ pat @ post" by simp
  then show "occursIn pat (a @ b)" unfolding occursIn_iff by blast
qed

lemma joinLines_occurs: "x \<in> set xs \<Longrightarrow> occursIn x (joinLines xs)"
proof (induction xs rule: joinLines.induct)
  case 1
  then show ?case by simp
next
  case (2 y)
  then have "joinLines [y] = [] @ x @ []" by simp
  then show ?case unfolding occursIn_iff by blast
next
  case (3 y z r)
  show ?case
  proof (cases "x = y")
    case True
    then have "joinLines (y # z # r) = [] @ x @ ([10] @ joinLines (z # r))" by simp
    then show ?thesis unfolding occursIn_iff by blast
  next
    case False
    with 3 have "occursIn x (joinLines (z # r))" by simp
    then have "occursIn x ((y @ [10]) @ joinLines (z # r))" by (rule occursIn_append(2))
    then show ?thesis by simp
  qed
qed

lemma renderChunk_occurs: "m \<in> set chunk \<Longrightarrow> occursIn (content m) (renderChunk chunk)"
proof -
  assume m: "m \<in> set chunk"
  define line where "line = (\<lambda>msg :: ChatMessage. roleName (role msg) @ js '': '' @ content msg)"
  have "line m \<in> set (map line chunk)" using m by simp
  then have "occursIn (line m) (joinLines (map line chunk))" by (rule joinLines_occurs)
  then obtain pre post where "joinLines (map line chunk) = pre @ line m @ post"
    by (auto simp: occursIn_iff)
  then have "renderChunk chunk =
      ([10, 10] @ pre @ roleName (role m) @ js '': '') @ content m @ post"
    by (simp add: renderChunk_def line_def)
  then show ?thesis unfolding occursIn_iff by blast
qed

lemma summaryMessage_carries_synopsis:
  "role (summaryMessage s lang) = System \<and> occursIn s (content (summaryMessage s lang))"
proof (cases "lang = Chinese")
  case True
  then have "content (summaryMessage s lang) =
      [20043, 21069, 30340, 23545, 35805, 25688, 35201, 65306] @ s
       @ [10, 10, 35831, 22522, 20110, 36825, 20010, 25688, 35201, 21644, 24403,
          21069, 23545, 35805, 32487, 32493, 22238, 31572, 12290]"
    by (simp add: summaryMessage_def)
  then have "occursIn s (content (summaryMessage s lang))" unfolding occursIn_iff by blast
  then show ?thesis by (simp add: summaryMessage_def)
next
  case False
  then have "content (summaryMessage s lang) =
      js ''Previous conversation summary: '' @ s
       @ ([10, 10] @ js ''Please continue the conversation based on this summary and the current dialogue.'')"
    by (simp add: summaryMessage_def)
  then have "occursIn s (content (summaryMessage s lang))" unfolding occursIn_iff by blast
  then show ?thesis by (simp add: summaryMessage_def)
qed

lemma integrated_chunk:
  "(if s = [] then integrateSummaryWithChunk chunk s lang = chunk
    else (case integrateSummaryWithChunk chunk s lang of
            [] \<Rightarrow> False
          | m # ms \<Rightarrow> role m = System \<and> occursIn s (content m) \<and> ms = chunk))"
  using summaryMessage_carries_synopsis [of s lang]
  by (simp add: integrateSummaryWithChunk_def)

lemma processChunks_success:
  "todo \<noteq> [] \<Longrightarrow> validateConfig (apiProviders w Portkey) = Inr c \<Longrightarrow> i > 0 \<Longrightarrow> pc \<noteq> [] \<Longrightarrow>
   \<forall>j<length todo. \<forall>body. answers (net (length (providerCalls w) + 2 * j + 1) body) \<Longrightarrow>
   list_all (\<lambda>m. occursIn (content m) pc) processed \<Longrightarrow>
   \<exists>evs r. processChunks net lang cp i todo pc cs w =
             (Inr r, w\<lparr> providerCalls := providerCalls w @ evs \<rparr>) \<and>
           chunkedCalls processed cs todo evs \<and> evs \<noteq> [] \<and> outcome (last evs) = Inr r"
proof (induction todo arbitrary: i pc cs w processed)
  case Nil
  then show ?case by simp
next
  case (Cons chunk rest)
  define r1 where "r1 = fst (adapterCall net Portkey (CallAPI (Text pc)) lang cp w)"
  define w1 where "w1 = w\<lparr> providerCalls := providerCalls w @ [(Portkey, CallAPI (Text pc), r1)] \<rparr>"
  define cs' where "cs' = (case r1 of Inr resp \<Rightarrow> summary resp | Inl e \<Rightarrow> cs)"
  have syn: "adapterCall net Portkey (CallAPI (Text pc)) lang cp w = (r1, w1)"
    using adapterCall_effect [of net Portkey "CallAPI (Text pc)" lang cp w]
    by (simp add: r1_def w1_def prod_eq_iff)
  have v1: "validateConfig (apiProviders w1 Portkey) = Inr c"
    using Cons.prems(2) by (simp add: w1_def)
  have "\<forall>body. answers (net (length (providerCalls w) + 2 * 0 + 1) body)"
    using Cons.prems(5) by blast
  then have a1: "\<forall>body. answers (net (length (providerCalls w1)) body)"
    by (simp add: w1_def)
  define sent where "sent = integrateSummaryWithChunk chunk cs' lang"
  from chunk_call_returns [where net = net and w = w1 and lang = lang and cp = cp
      and ms = sent, OF v1 a1]
  obtain r2 where call: "adapterCall net Portkey (CallLargeContextAPI sent) lang cp w1 =
       (Inr r2, w1\<lparr> providerCalls := providerCalls w1 @
          [(Portkey, CallLargeContextAPI sent, Inr r2)] \<rparr>)"
    by blast
  define w2 where "w2 = w1\<lparr> providerCalls := providerCalls w1 @
          [(Portkey, CallLargeContextAPI sent, Inr r2)] \<rparr>"
  define two where "two = [(Portkey, CallAPI (Text pc), r1),
          (Portkey, CallLargeContextAPI sent, Inr r2 :: ustring + LLMResponse)]"
  have w2: "w2 = w\<lparr> providerCalls := providerCalls w @ two \<rparr>"
    by (simp add: w2_def w1_def two_def)
  have unfold: "processChunks net lang cp i (chunk # rest) pc cs w =
     (if rest = [] then (Inr r2, w2)
      else processChunks net lang cp (Suc i) rest (pc @ renderChunk chunk) cs' w2)"
    using Cons.prems(3,4) syn call
    by (cases r1) (simp_all add: cs'_def w2_def sent_def)
  have sent_ok: "(if cs' = [] then sent = chunk
    else (case sent of [] \<Rightarrow> False
          | m # ms \<Rightarrow> role m = System \<and> occursIn cs' (content m) \<and> ms = chunk))"
    unfolding sent_def by (rule integrated_chunk)
  have step: "chunkedCalls processed cs (chunk # rest) (two @ evs) =
      chunkedCalls (processed @ chunk) cs' rest evs" for evs
    using sent_ok Cons.prems(6) unfolding cs'_def two_def
    by (cases "(case r1 of Inr resp \<Rightarrow> summary resp | Inl e \<Rightarrow> cs) = []") simp_all
  show ?case
  proof (cases "rest = []")
    case True
    have "chunkedCalls processed cs (chunk # rest) (two @ [])"
      unfolding step using True by simp
    then have "chunkedCalls processed cs (chunk # rest) two" by simp
    moreover have "processChunks net lang cp i (chunk # rest) pc cs w =
       (Inr r2, w\<lparr> providerCalls := providerCalls w @ two \<rparr>)"
      unfolding unfold using True w2 by simp
    moreover have "two \<noteq> [] \<and> outcome (last two) = Inr r2" by (simp add: two_def)
    ultimately show ?thesis by blast
  next
    case False
    have v2: "validateConfig (apiProviders w2 Portkey) = Inr c"
      using Cons.prems(2) by (simp add: w2)
    have a2: "\<forall>j<length rest. \<forall>body. answers (net (length (providerCalls w2) + 2 * j + 1) body)"
    proof (intro allI impI)
      fix j body assume "j < length rest"
      then have "Suc j < length (chunk # rest)" by simp
      with Cons.prems(5) have "answers (net (length (providerCalls w) + 2 * Suc j + 1) body)"
        by blast
      then show "answers (net (length (providerCalls w2) + 2 * j + 1) body)"
        by (simp add: w2 two_def)
    qed
    have pc': "pc @ renderChunk chunk \<noteq> []" using Cons.prems(4) by simp
    have inv: "list_all (\<lambda>m. occursIn (content m) (pc @ renderChunk chunk)) (processed @ chunk)"
      using Cons.prems(6)
      by (auto simp: list_all_iff intro: occursIn_append renderChunk_occurs)
    have pos: "Suc i > 0" by simp
    from Cons.IH [where w = w2 and i = "Suc i" and cs = cs' and pc = "pc @ renderChunk chunk"
        and processed = "processed @ chunk", OF False v2 pos pc' a2 inv]
    obtain evs r where run: "processChunks net lang cp (Suc i) rest (pc @ renderChunk chunk) cs' w2 =
             (Inr r, w2\<lparr> providerCalls := providerCalls w2 @ evs \<rparr>)"
      and tr: "chunkedCalls (processed @ chunk) cs' rest evs"
      and ne: "evs \<noteq> []" and last: "outcome (last evs) = Inr r"
      by auto
    have "processChunks net lang cp i (chunk # rest) pc cs w =
             (Inr r, w\<lparr> providerCalls := providerCalls w @ (two @ evs) \<rparr>)"
      unfolding unfold using False run by (simp add: w2)
    moreover have "chunkedCalls processed cs (chunk # rest) (two @ evs)"
      unfolding step using tr .
    moreover have "two @ evs \<noteq> [] \<and> outcome (last (two @ evs)) = Inr r"
      using ne last by simp
    ultimately show ?thesis by blast
  qed
qed

lemma chunkedCalls_Cons:
  "chunkedCalls processed cs (chunk # rest) evs \<Longrightarrow>
   \<exists>t r1 sent r2 evs'.
     evs = (Portkey, CallAPI (Text t), r1) # (Portkey, CallLargeContextAPI sent, Inr r2) # evs' \<and>
     list_all (\<lambda>m. occursIn (content m) t) processed \<and>
     (sent = chunk \<or> (\<exists>m. role m = System \<and> sent = m # chunk)) \<and>
     chunkedCalls (processed @ chunk)
       (case r1 of Inr resp \<Rightarrow> summary resp | Inl e \<Rightarrow> cs) rest evs'"
proof -
  assume a: "chunkedCalls processed cs (chunk # rest) evs"
  then obtain e1 e2 evs' where evs: "evs = e1 # e2 # evs'"
    by (cases evs; cases "tl evs") auto
  obtain p1 c1 r1 where e1: "e1 = (p1, c1, r1)" by (cases e1)
  obtain p2 c2 r2 where e2: "e2 = (p2, c2, r2)" by (cases e2)
  from a have parts: "p1 = Portkey" "p2 = Portkey"
    "(case c1 of CallAPI (Text t) \<Rightarrow> list_all (\<lambda>m. occursIn (content m) t) processed
       | _ \<Rightarrow> False)"
    "(case c2 of
         CallLargeContextAPI sent \<Rightarrow>
           (if (case r1 of Inr resp \<Rightarrow> summary resp | Inl e \<Rightarrow> cs) = []
            then sent = chunk
            else (case sent of
                    [] \<Rightarrow> False
                  | m # ms \<Rightarrow>
                      role m = System \<and>
                      occursIn (case r1 of Inr resp \<Rightarrow> summary resp | Inl e \<Rightarrow> cs)
                        (content m) \<and>
                      ms = chunk))
       | CallAPI x \<Rightarrow> False)"
    "(case r2 of Inr resp \<Rightarrow> True | Inl e \<Rightarrow> False)"
    "chunkedCalls (processed @ chunk)
        (case r1 of Inr resp \<Rightarrow> summary resp | Inl e \<Rightarrow> cs) rest evs'"
    unfolding evs e1 e2 by simp_all
  from parts(3) obtain t where c1: "c1 = CallAPI (Text t)"
    and occ: "list_all (\<lambda>m. occursIn (content m) t) processed"
    by (auto split: call.splits messagesOrText.splits)
  from parts(4) obtain sent where c2: "c2 = CallLargeContextAPI sent"
    and sent: "sent = chunk \<or> (\<exists>m. role m = System \<and> sent = m # chunk)"
    by (auto split: call.splits if_splits list.splits)
  from parts(5) obtain resp where r2: "r2 = Inr resp" by (cases r2) auto
  show ?thesis
    using parts(1,2,6) occ sent unfolding evs e1 e2 c1 c2 r2 by blast
qed

lemma chunkedCalls_counts:
  "chunkedCalls processed cs todo evs \<Longrightarrow>
   length (filter isChunkCall evs) = length todo \<and>
   length (filter (\<lambda>e. \<not> isChunkCall e) evs) = length todo"
proof (induction todo arbitrary: processed cs evs)
  case Nil
  then show ?case by simp
next
  case (Cons chunk rest)
  from chunkedCalls_Cons [OF Cons.prems] obtain t r1 sent r2 evs' where
    evs: "evs = (Portkey, CallAPI (Text t), r1) # (Portkey, CallLargeContextAPI sent, Inr r2) # evs'"
    and tr: "chunkedCalls (processed @ chunk)
       (case r1 of Inr resp \<Rightarrow> summary resp | Inl e \<Rightarrow> cs) rest evs'"
    by blast
  from Cons.IH [OF tr] show ?case unfolding evs by simp
qed

lemma chunkedCalls_order:
  "chunkedCalls processed cs todo evs \<Longrightarrow> j < length todo \<Longrightarrow>
   \<exists>sent. fst (snd (filter isChunkCall evs ! j)) = CallLargeContextAPI sent \<and>
          (sent = todo ! j \<or> (\<exists>m. role m = System \<and> sent = m # todo ! j))"
proof (induction todo arbitrary: processed cs evs j)
  case Nil
  then show ?case by simp
next
  case (Cons chunk rest)
  from chunkedCalls_Cons [OF Cons.prems(1)] obtain t r1 sent r2 evs' where
    evs: "evs = (Portkey, CallAPI (Text t), r1) # (Portkey, CallLargeContextAPI sent, Inr r2) # evs'"
    and sent: "sent = chunk \<or> (\<exists>m. role m = System \<and> sent = m # chunk)"
    and tr: "chunkedCalls (processed @ chunk)
       (case r1 of Inr resp \<Rightarrow> summary resp | Inl e \<Rightarrow> cs) rest evs'"
    by blast
  show ?case
  proof (cases j)
    case 0
    then show ?thesis unfolding evs using sent by simp
  next
    case (Suc j')
    with Cons.prems(2) have "j' < length rest" by simp
    from Cons.IH [OF tr this] show ?thesis unfolding evs Suc by simp
  qed
qed

text \<open>
  C2. In the chunked path, with an adapter that has its API key and a network on which
  every chunk call is answered: the first chunk is sent as it is. For every further
  chunk, in the order of the chunks, a synopsis is requested first, for a text in which
  the content of every message processed so far occurs; the chunk is then sent, and when
  the synopsis is not empty a message with the role \<open>system\<close> whose content holds the
  synopsis stands in front of it (\<open>chunkedCalls\<close>). The result is the response to the
  last call, the call for the final chunk. For \<open>k\<close> chunks there are \<open>k\<close> chunk calls, the
  \<open>j\<close>-th of them carrying the \<open>j\<close>-th chunk, alone or behind one system message, and
  \<open>k - 1\<close> synopsis calls.
\<close>

theorem chunked_path_calls_in_order:
  "100000 \<le> estimatedTokens msgs \<Longrightarrow> apiKey config \<noteq> [] \<Longrightarrow>
   \<forall>j<length (chunkLargeContext msgs).
      \<forall>body. answers (net (length (providerCalls w) + 2 * j) body) \<Longrightarrow>
   \<exists>first rest r0 r evs.
     chunkLargeContext msgs = first # rest \<and>
     handleExtremelyLargeContext net msgs config lang cp w =
       (Inr r,
        (initialize Portkey config w)\<lparr> providerCalls :=
           providerCalls w @ (Portkey, CallLargeContextAPI first, Inr r0) # evs \<rparr>) \<and>
     chunkedCalls first [] rest evs \<and>
     outcome (last ((Portkey, CallLargeContextAPI first, Inr r0) # evs)) = Inr r \<and>
     length (filter isChunkCall ((Portkey, CallLargeContextAPI first, Inr r0) # evs)) =
       length (chunkLargeContext msgs) \<and>
     length (filter (\<lambda>e. \<not> isChunkCall e) ((Portkey, CallLargeContextAPI first, Inr r0) # evs)) =
       length (chunkLargeContext msgs) - 1 \<and>
     (\<forall>j<length (chunkLargeContext msgs).
        \<exists>sent. fst (snd (filter isChunkCall ((Portkey, CallLargeContextAPI first, Inr r0) # evs) ! j)) =
                 CallLargeContextAPI sent \<and>
               (sent = chunkLargeContext msgs ! j \<or>
                (\<exists>m. role m = System \<and> sent = m # chunkLargeContext msgs ! j)))"
proof -
  assume big: "100000 \<le> estimatedTokens msgs" and key: "apiKey config \<noteq> []"
    and ans: "\<forall>j<length (chunkLargeContext msgs).
      \<forall>body. answers (net (length (providerCalls w) + 2 * j) body)"
  define w0 where "w0 = initialize Portkey config w"
  have v: "validateConfig (apiProviders w0 Portkey) = Inr config"
    using key by (simp add: w0_def validateConfig_def)
  have calls0: "providerCalls w0 = providerCalls w" by (simp add: w0_def)
  obtain first rest where chunks: "chunkLargeContext msgs = first # rest"
    using chunks_nonempty [OF big] by (cases "chunkLargeContext msgs") auto
  have h: "handleExtremelyLargeContext net msgs config lang cp w =
      processChunks net lang cp 0 (first # rest) [] [] w0"
    using big by (simp add: handleExtremelyLargeContext_def Let_def chunks w0_def)
  have "\<forall>body. answers (net (length (providerCalls w) + 2 * 0) body)"
    using ans chunks by (metis length_greater_0_conv list.distinct(1))
  then have a0: "\<forall>body. answers (net (length (providerCalls w0)) body)"
    by (simp add: calls0)
  from chunk_call_returns [where net = net and w = w0 and lang = lang and cp = cp
      and ms = first, OF v a0]
  obtain r0 where call: "adapterCall net Portkey (CallLargeContextAPI first) lang cp w0 =
         (Inr r0, w0\<lparr> providerCalls := providerCalls w0 @ [(Portkey, CallLargeContextAPI first, Inr r0)] \<rparr>)"
    by blast
  define e0 where "e0 = (Portkey, CallLargeContextAPI first, Inr r0 :: ustring + LLMResponse)"
  define w2 where "w2 = w0\<lparr> providerCalls := providerCalls w @ [e0] \<rparr>"
  have unfold: "processChunks net lang cp 0 (first # rest) [] [] w0 =
     (if rest = [] then (Inr r0, w2)
      else processChunks net lang cp (Suc 0) rest (renderChunk first) [] w2)"
    using call by (simp add: integrateSummaryWithChunk_def w2_def e0_def calls0)
  have e0c: "isChunkCall e0" "outcome e0 = Inr r0" by (simp_all add: e0_def)
  have first_j: "fst (snd e0) = CallLargeContextAPI first"
    by (simp add: e0_def)
  show ?thesis
  proof (cases "rest = []")
    case True
    have "handleExtremelyLargeContext net msgs config lang cp w =
       (Inr r0, w0\<lparr> providerCalls := providerCalls w @ e0 # [] \<rparr>)"
      unfolding h unfold using True by (simp add: w2_def)
    moreover have "chunkedCalls first [] rest []" using True by simp
    moreover have "\<forall>j<length (chunkLargeContext msgs).
        \<exists>sent. fst (snd (filter isChunkCall (e0 # []) ! j)) = CallLargeContextAPI sent \<and>
               (sent = chunkLargeContext msgs ! j \<or>
                (\<exists>m. role m = System \<and> sent = m # chunkLargeContext msgs ! j))"
      using first_j e0c True by (simp add: chunks)
    ultimately show ?thesis
      using e0c True unfolding chunks w0_def e0_def
      by (intro exI [of _ first] exI [of _ rest] exI [of _ r0] exI [of _ "[]"]) simp
  next
    case False
    have v2: "validateConfig (apiProviders w2 Portkey) = Inr config"
      using v by (simp add: w2_def)
    have a2: "\<forall>j<length rest. \<forall>body. answers (net (length (providerCalls w2) + 2 * j + 1) body)"
    proof (intro allI impI)
      fix j body assume "j < length rest"
      then have "Suc j < length (chunkLargeContext msgs)" by (simp add: chunks)
      with ans have "answers (net (length (providerCalls w) + 2 * Suc j) body)" by blast
      then show "answers (net (length (providerCalls w2) + 2 * j + 1) body)"
        by (simp add: w2_def)
    qed
    have pos: "Suc 0 > 0" by simp
    have inv: "list_all (\<lambda>m. occursIn (content m) (renderChunk first)) first"
      by (simp add: list_all_iff renderChunk_occurs)
    from processChunks_success [where net = net and w = w2 and i = "Suc 0" and cs = "[]"
        and pc = "renderChunk first" and lang = lang and cp = cp and processed = first,
        OF False v2 pos rendered_nonempty a2 inv]
    obtain evs r where run: "processChunks net lang cp (Suc 0) rest (renderChunk first) [] w2 =
             (Inr r, w2\<lparr> providerCalls := providerCalls w2 @ evs \<rparr>)"
      and tr: "chunkedCalls first [] rest evs"
      and ne: "evs \<noteq> []" and last: "outcome (last evs) = Inr r"
      by blast
    have res: "handleExtremelyLargeContext net msgs config lang cp w =
       (Inr r, w0\<lparr> providerCalls := providerCalls w @ e0 # evs \<rparr>)"
      unfolding h unfold using False run by (simp add: w2_def)
    have cnt: "length (filter isChunkCall evs) = length rest"
      "length (filter (\<lambda>e. \<not> isChunkCall e) evs) = length rest"
      using chunkedCalls_counts [OF tr] by simp_all
    have ord: "\<forall>j<length (chunkLargeContext msgs).
        \<exists>sent. fst (snd (filter isChunkCall (e0 # evs) ! j)) = CallLargeContextAPI sent \<and>
               (sent = chunkLargeContext msgs ! j \<or>
                (\<exists>m. role m = System \<and> sent = m # chunkLargeContext msgs ! j))"
    proof (intro allI impI)
      fix j assume j: "j < length (chunkLargeContext msgs)"
      show "\<exists>sent. fst (snd (filter isChunkCall (e0 # evs) ! j)) = CallLargeContextAPI sent \<and>
               (sent = chunkLargeContext msgs ! j \<or>
                (\<exists>m. role m = System \<and> sent = m # chunkLargeContext msgs ! j))"
      proof (cases j)
        case 0
        then show ?thesis using first_j e0c by (simp add: chunks)
      next
        case (Suc j')
        with j have "j' < length rest" by (simp add: chunks)
        from chunkedCalls_order [OF tr this] show ?thesis
          using e0c by (simp add: chunks Suc)
      qed
    qed
    have "outcome (last (e0 # evs)) = Inr r" using ne last by simp
    moreover have "length (filter isChunkCall (e0 # evs)) = length (chunkLargeContext msgs)"
      using cnt e0c by (simp add: chunks)
    moreover have "length (filter (\<lambda>e. \<not> isChunkCall e) (e0 # evs)) = length (chunkLargeContext msgs) - 1"
      using cnt e0c by (simp add: chunks)
    ultimately show ?thesis
      using res tr ord unfolding w0_def e0_def
      by (intro exI [of _ first] exI [of _ rest] exI [of _ r0] exI [of _ r] exI [of _ evs])
        (simp add: chunks)
  qed
qed

lemma answering_answers: "answers (answering s n body)"
  by (simp add: answers_def answering_def)

theorem chunked_path_calls_in_order_witness:
  "100000 \<le> estimatedTokens [sampleMessage User 200000, sampleMessage Assistant 200004] \<and>
   apiKey sampleConfig \<noteq> [] \<and>
   chunkLargeContext [sampleMessage User 200000, sampleMessage Assistant 200004] =
     [[sampleMessage User 200000], [sampleMessage Assistant 200004]] \<and>
   (\<exists>r. fst (handleExtremelyLargeContext (answering (js ''done''))
              [sampleMessage User 200000, sampleMessage Assistant 200004]
              sampleConfig English None sampleWorld) = Inr r) \<and>
   length (filter isChunkCall
     (providerCalls (snd (handleExtremelyLargeContext (answering (js ''done''))
              [sampleMessage User 200000, sampleMessage Assistant 200004]
              sampleConfig English None sampleWorld)))) = 2 \<and>
   length (filter (\<lambda>e. \<not> isChunkCall e)
     (providerCalls (snd (handleExtremelyLargeContext (answering (js ''done''))
              [sampleMessage User 200000, sampleMessage Assistant 200004]
              sampleConfig English None sampleWorld)))) = 1"
proof -
  define msgs where "msgs = [sampleMessage User 200000, sampleMessage Assistant 200004]"
  have b: "100000 \<le> estimatedTokens msgs" by (simp add: msgs_def sample_estimate)
  have k: "apiKey sampleConfig \<noteq> []" by (simp add: sampleConfig_def)
  have c: "chunkLargeContext msgs = [[sampleMessage User 200000], [sampleMessage Assistant 200004]]"
    by (simp add: msgs_def sample_two_chunks)
  have a: "\<forall>j<length (chunkLargeContext msgs).
      \<forall>body. answers (answering (js ''done'') (length (providerCalls sampleWorld) + 2 * j) body)"
    by (simp add: answering_answers)
  have e: "providerCalls sampleWorld = []" by (simp add: sampleWorld_def)
  from chunked_path_calls_in_order [where net = "answering (js ''done'')" and w = sampleWorld
      and lang = English and cp = None, OF b k a]
  obtain first rest r0 r evs where
    run: "handleExtremelyLargeContext (answering (js ''done'')) msgs sampleConfig English None sampleWorld =
       (Inr r,
        (initialize Portkey sampleConfig sampleWorld)\<lparr> providerCalls :=
           providerCalls sampleWorld @ (Portkey, CallLargeContextAPI first, Inr r0) # evs \<rparr>)"
    and n1: "length (filter isChunkCall ((Portkey, CallLargeContextAPI first, Inr r0) # evs)) =
       length (chunkLargeContext msgs)"
    and n2: "length (filter (\<lambda>e. \<not> isChunkCall e) ((Portkey, CallLargeContextAPI first, Inr r0) # evs)) =
       length (chunkLargeContext msgs) - 1"
    by blast
  have "\<exists>r. fst (handleExtremelyLargeContext (answering (js ''done'')) msgs sampleConfig English None sampleWorld) = Inr r"
    unfolding run by simp
  moreover have "length (filter isChunkCall
     (providerCalls (snd (handleExtremelyLargeContext (answering (js ''done'')) msgs
              sampleConfig English None sampleWorld)))) = 2"
    unfolding run using n1 by (simp add: e c)
  moreover have "length (filter (\<lambda>e. \<not> isChunkCall e)
     (providerCalls (snd (handleExtremelyLargeContext (answering (js ''done'')) msgs
              sampleConfig English None sampleWorld)))) = 1"
    unfolding run using n2 by (simp add: e c)
  ultimately show ?thesis using b k c unfolding msgs_def by blast
qed

theorem failing_chunk_call_aborts_witness:
  "100000 \<le> estimatedTokens [sampleMessage User 200000, sampleMessage Assistant 200004] \<and>
   length (providerCalls (snd (handleExtremelyLargeContext (refusingAt 2)
              [sampleMessage User 200000, sampleMessage Assistant 200004]
              sampleConfig English None sampleWorld))) = 3 \<and>
   fst (handleExtremelyLargeContext (refusingAt 2)
          [sampleMessage User 200000, sampleMessage Assistant 200004]
          sampleConfig English None sampleWorld) =
     Inl (js ''Portkey API request failed: Portkey API request failed (429 Too Many Requests): Rate limit reached''
          @ [10, 10] @ js ''Tip: You have hit rate limits. Please wait before trying again.'')"
proof -
  define msgs where "msgs = [sampleMessage User 200000, sampleMessage Assistant 200004]"
  define h where "h = handleExtremelyLargeContext (refusingAt 2) msgs sampleConfig English None sampleWorld"
  have b: "100000 \<le> estimatedTokens msgs" by (simp add: msgs_def sample_estimate)
  have calls: "providerCalls (snd h) =
         [(Portkey, CallLargeContextAPI [sampleMessage User 200000], Inr (plainResponse (js ''done''))),
          (Portkey, CallAPI (Text (renderChunk [sampleMessage User 200000])), Inr (plainResponse (js ''done''))),
          (Portkey, CallLargeContextAPI (summaryMessage (js ''done'') English # [sampleMessage Assistant 200004]),
           Inl (js ''Portkey API request failed: Portkey API request failed (429 Too Many Requests): Rate limit reached''
          @ [10, 10] @ js ''Tip: You have hit rate limits. Please wait before trying again.''))]"
    unfolding h_def msgs_def sample_run_refused by simp
  from failing_chunk_call_aborts [OF b, of "refusingAt 2" sampleConfig English None sampleWorld]
  obtain evs where evs: "providerCalls (snd h) = providerCalls sampleWorld @ evs"
    and res: "fst h = outcome (last evs)"
    unfolding h_def by blast
  have "providerCalls sampleWorld = []" by (simp add: sampleWorld_def)
  with evs calls have "evs =
         [(Portkey, CallLargeContextAPI [sampleMessage User 200000], Inr (plainResponse (js ''done''))),
          (Portkey, CallAPI (Text (renderChunk [sampleMessage User 200000])), Inr (plainResponse (js ''done''))),
          (Portkey, CallLargeContextAPI (summaryMessage (js ''done'') English # [sampleMessage Assistant 200004]),
           Inl (js ''Portkey API request failed: Portkey API request failed (429 Too Many Requests): Rate limit reached''
          @ [10, 10] @ js ''Tip: You have hit rate limits. Please wait before trying again.''))]"
    by simp
  with res have "fst h = Inl (js ''Portkey API request failed: Portkey API request failed (429 Too Many Requests): Rate limit reached''
          @ [10, 10] @ js ''Tip: You have hit rate limits. Please wait before trying again.'')"
    by simp
  moreover have "length (providerCalls (snd h)) = 3" unfolding calls by simp
  ultimately show ?thesis using b unfolding h_def msgs_def by blast
qed

text \<open>
  The claim as stated fails when the call that fails is a synopsis request: with two
  chunks and a network that refuses the second call, the operation goes on, sends the
  second chunk without a synopsis and returns its response.
\<close>

theorem failing_synopsis_call_counterexample:
  "map outcome
     (providerCalls (snd (handleExtremelyLargeContext (refusingAt 1)
        [sampleMessage User 200000, sampleMessage Assistant 200004]
        sampleConfig English None sampleWorld))) =
     [Inr (plainResponse (js ''done'')),
      Inl (js ''Portkey API request failed: Portkey API request failed (429 Too Many Requests): Rate limit reached''
          @ [10, 10] @ js ''Tip: You have hit rate limits. Please wait before trying again.''),
      Inr (plainResponse (js ''done''))] \<and>
   fst (handleExtremelyLargeContext (refusingAt 1)
          [sampleMessage User 200000, sampleMessage Assistant 200004]
          sampleConfig English None sampleWorld) = Inr (plainResponse (js ''done''))"
proof -
  have v: "validateConfig (Some sampleConfig) = Inr sampleConfig"
    by (simp add: validateConfig_def sampleConfig_def)
  have "handleExtremelyLargeContext (refusingAt 1)
     [sampleMessage User 200000, sampleMessage Assistant 200004] sampleConfig English None sampleWorld
   = (Inr (plainResponse (js ''done'')),
      (initialize Portkey sampleConfig sampleWorld)\<lparr> providerCalls :=
         [(Portkey, CallLargeContextAPI [sampleMessage User 200000], Inr (plainResponse (js ''done''))),
          (Portkey, CallAPI (Text (renderChunk [sampleMessage User 200000])),
           Inl (js ''Portkey API request failed: Portkey API request failed (429 Too Many Requests): Rate limit reached''
          @ [10, 10] @ js ''Tip: You have hit rate limits. Please wait before trying again.'')),
          (Portkey, CallLargeContextAPI [sampleMessage Assistant 200004],
           Inr (plainResponse (js ''done'')))] \<rparr>)"
    by (simp add: handleExtremelyLargeContext_def Let_def sample_estimate sample_two_chunks adapterCall_def
        initialize_def sampleWorld_def callAPI_def portkey_callLargeContextAPI_def
        refusingAt_def portkey_refused [OF v] portkey_answered [OF v] rendered_nonempty
        integrateSummaryWithChunk_def plainResponse_def orElse_def)
  then show ?thesis by simp
qed


end
